theory Spec2Isabelle
  imports Complex_Main "HOL-Library.Word" "HOL-Library.AList"
begin

section \<open>Common runtime values\<close>

text \<open>
  The development embeds the parts of the gRPC runtime that the specification's testable
  properties talk about: the metadata container, the server-side call object and stream
  dispatcher, the client-side call object, the resolving load balancer and the
  service-config validator. JavaScript strings are lists of characters, Buffers are lists
  of bytes, exceptions are values of a sum type, and every mutable object is a record that
  the operations take and return.
\<close>

type_synonym byte = "8 word"

text \<open>Exceptions thrown by the validators, by class and message.\<close>

datatype jsError = Error string | TypeError string | SyntaxError string

text \<open>
  Modelled from the spec: the \<open>Status\<close> enumeration of constants.ts, which is not among
  the sources; the numeric values are those of the specification's data model.
\<close>

definition Status_OK :: int where "Status_OK = 0"
definition Status_CANCELLED :: int where "Status_CANCELLED = 1"
definition Status_UNKNOWN :: int where "Status_UNKNOWN = 2"
definition Status_DEADLINE_EXCEEDED :: int where "Status_DEADLINE_EXCEEDED = 4"
definition Status_PERMISSION_DENIED :: int where "Status_PERMISSION_DENIED = 7"
definition Status_RESOURCE_EXHAUSTED :: int where "Status_RESOURCE_EXHAUSTED = 8"
definition Status_OUT_OF_RANGE :: int where "Status_OUT_OF_RANGE = 11"
definition Status_UNIMPLEMENTED :: int where "Status_UNIMPLEMENTED = 12"
definition Status_INTERNAL :: int where "Status_INTERNAL = 13"
definition Status_UNAVAILABLE :: int where "Status_UNAVAILABLE = 14"
definition Status_UNAUTHENTICATED :: int where "Status_UNAUTHENTICATED = 16"

lemmas Status_defs =
  Status_OK_def Status_CANCELLED_def Status_UNKNOWN_def Status_DEADLINE_EXCEEDED_def
  Status_PERMISSION_DENIED_def Status_RESOURCE_EXHAUSTED_def Status_OUT_OF_RANGE_def
  Status_UNIMPLEMENTED_def Status_INTERNAL_def Status_UNAVAILABLE_def
  Status_UNAUTHENTICATED_def

text \<open>
  The RST_STREAM error codes of \<open>http2.constants\<close> (a table of the Node runtime), with
  the values RFC 7540 assigns.
\<close>

definition NGHTTP2_REFUSED_STREAM :: nat where "NGHTTP2_REFUSED_STREAM = 7"
definition NGHTTP2_CANCEL :: nat where "NGHTTP2_CANCEL = 8"
definition NGHTTP2_ENHANCE_YOUR_CALM :: nat where "NGHTTP2_ENHANCE_YOUR_CALM = 11"
definition NGHTTP2_INADEQUATE_SECURITY :: nat where "NGHTTP2_INADEQUATE_SECURITY = 12"

lemmas NGHTTP2_defs =
  NGHTTP2_REFUSED_STREAM_def NGHTTP2_CANCEL_def NGHTTP2_ENHANCE_YOUR_CALM_def
  NGHTTP2_INADEQUATE_SECURITY_def

section \<open>String helpers of the JavaScript runtime\<close>

definition isDigit :: "char \<Rightarrow> bool" where
  "isDigit c = (48 \<le> (of_char c :: nat) \<and> (of_char c :: nat) \<le> 57)"

text \<open>The class \<open>\s\<close> and the characters \<open>trim\<close> strips, among 8-bit code units.\<close>

definition isSpace :: "char \<Rightarrow> bool" where
  "isSpace c = (let n = (of_char c :: nat) in (9 \<le> n \<and> n \<le> 13) \<or> n = 32 \<or> n = 160)"

definition trim :: "string \<Rightarrow> string" where
  "trim s = rev (dropWhile isSpace (rev (dropWhile isSpace s)))"

text \<open>\<open>s.split(',')\<close>: the pieces between commas; an empty string gives one empty piece.\<close>

fun splitComma :: "string \<Rightarrow> string list" where
  "splitComma [] = [[]]"
| "splitComma (c # cs) =
     (if c = CHR '','' then [] # splitComma cs
      else (case splitComma cs of p # ps \<Rightarrow> (c # p) # ps | [] \<Rightarrow> [[c]]))"

definition toLowerChar :: "char \<Rightarrow> char" where
  "toLowerChar c =
     (let n = (of_char c :: nat) in if 65 \<le> n \<and> n \<le> 90 then char_of (n + 32) else c)"

definition toLowerCase :: "string \<Rightarrow> string" where
  "toLowerCase s = map toLowerChar s"


definition endsWith :: "string \<Rightarrow> string \<Rightarrow> bool" where
  "endsWith s p = (length p \<le> length s \<and> drop (length s - length p) s = p)"


fun digitsToNat_acc :: "nat \<Rightarrow> string \<Rightarrow> nat" where
  "digitsToNat_acc acc [] = acc"
| "digitsToNat_acc acc (c # cs) = digitsToNat_acc (acc * 10 + ((of_char c :: nat) - 48)) cs"

text \<open>The number a string of decimal digits denotes (unary plus on a digit string).\<close>

definition digitsToNat :: "string \<Rightarrow> nat" where
  "digitsToNat s = digitsToNat_acc 0 s"

section \<open>Objects with string keys\<close>

text \<open>
  The own properties of a plain object are an association list in insertion order; a read
  of an own property is \<open>map_of\<close>. \<open>Object.keys\<close> lists canonical array indices first, in
  ascending numeric order, and the other keys in insertion order.
\<close>

definition isArrayIndex :: "string \<Rightarrow> bool" where
  "isArrayIndex k =
     (k \<noteq> [] \<and> list_all isDigit k \<and> (hd k \<noteq> CHR ''0'' \<or> k = ''0'')
      \<and> digitsToNat k < 2 ^ 32 - 1)"

definition Object_keys :: "(string \<times> 'v) list \<Rightarrow> string list" where
  "Object_keys obj =
     sort_key digitsToNat (filter isArrayIndex (map fst obj))
     @ filter (\<lambda>k. \<not> isArrayIndex k) (map fst obj)"

text \<open>
  The assignment \<open>obj[key] = v\<close> on an object created by \<open>{}\<close>. An existing own
  property keeps its place and a new one goes last. The key \<open>__proto__\<close> is the one
  exception: \<open>Object.prototype\<close> has an accessor of that name, the assignment calls its
  setter, which replaces the prototype when \<open>v\<close> is an object and does nothing otherwise,
  and no own property is created. The prototype is not part of the model: the objects
  written this way are read through \<open>Object.keys\<close> and \<open>Object.assign\<close>, which see own
  properties only.
\<close>

definition Object_set :: "string \<Rightarrow> 'v \<Rightarrow> (string \<times> 'v) list \<Rightarrow> (string \<times> 'v) list" where
  "Object_set key v obj = (if key = ''__proto__'' then obj else AList.update key v obj)"

section \<open>Base64 of the Buffer class\<close>

text \<open>
  \<open>Buffer.prototype.toString('base64')\<close> and \<open>Buffer.from(s, 'base64')\<close> belong to the
  Node runtime. They are modelled after RFC 4648 and Node's documented leniency: the encoder
  writes the standard alphabet with \<open>=\<close> padding; the decoder also accepts the URL-safe
  alphabet, skips every character outside the alphabet, stops at the first \<open>=\<close> and needs
  no padding.
\<close>

definition b64char :: "nat \<Rightarrow> char" where
  "b64char i =
     (if i < 26 then char_of (65 + i)
      else if i < 52 then char_of (71 + i)
      else if i < 62 then char_of (i - 4)
      else if i = 62 then CHR ''+'' else CHR ''/'')"

definition unbase64 :: "char \<Rightarrow> nat option" where
  "unbase64 c =
     (let n = (of_char c :: nat) in
      if 65 \<le> n \<and> n \<le> 90 then Some (n - 65)
      else if 97 \<le> n \<and> n \<le> 122 then Some (n - 71)
      else if 48 \<le> n \<and> n \<le> 57 then Some (n + 4)
      else if c = CHR ''+'' \<or> c = CHR ''-'' then Some 62
      else if c = CHR ''/'' \<or> c = CHR ''_'' then Some 63
      else None)"

fun base64_encode :: "byte list \<Rightarrow> string" where
  "base64_encode (a # b # c # bs) =
     (let n = unat a * 65536 + unat b * 256 + unat c in
      b64char (n div 262144) # b64char (n div 4096 mod 64) # b64char (n div 64 mod 64)
        # b64char (n mod 64) # base64_encode bs)"
| "base64_encode [a, b] =
     (let n = unat a * 1024 + unat b * 4 in
      [b64char (n div 4096), b64char (n div 64 mod 64), b64char (n mod 64), CHR ''=''])"
| "base64_encode [a] =
     (let n = unat a * 16 in [b64char (n div 64), b64char (n mod 64), CHR ''='', CHR ''=''])"
| "base64_encode [] = []"

fun decode_groups :: "nat list \<Rightarrow> byte list" where
  "decode_groups (p # q # r # s # vs) =
     (let n = ((p * 64 + q) * 64 + r) * 64 + s in
      of_nat (n div 65536) # of_nat (n div 256 mod 256) # of_nat (n mod 256)
        # decode_groups vs)"
| "decode_groups [p, q, r] =
     (let n = (p * 64 + q) * 64 + r in [of_nat (n div 1024), of_nat (n div 4 mod 256)])"
| "decode_groups [p, q] = [of_nat ((p * 64 + q) div 16)]"
| "decode_groups [p] = []"
| "decode_groups [] = []"

definition base64_decode :: "string \<Rightarrow> byte list" where
  "base64_decode s =
     decode_groups (List.map_filter unbase64 (takeWhile (\<lambda>c. c \<noteq> CHR ''='') s))"

section \<open>The metadata container (metadata.ts)\<close>

datatype MetadataValue = Str string | Buf "byte list"

text \<open>
  \<open>internalRepr\<close>, a \<open>Map\<close> from key to value list in insertion order. The \<open>options\<close>
  field of the class plays no part in the operations below and is left out.
\<close>

type_synonym Metadata = "(string \<times> MetadataValue list) list"

text \<open>\<open>LEGAL_KEY_REGEX = /^[0-9a-z_.-]+$/\<close>\<close>

definition isLegalKeyChar :: "char \<Rightarrow> bool" where
  "isLegalKeyChar c =
     (isDigit c \<or> (97 \<le> (of_char c :: nat) \<and> (of_char c :: nat) \<le> 122)
      \<or> c = CHR ''_'' \<or> c = CHR ''.'' \<or> c = CHR ''-'')"

definition isLegalKey :: "string \<Rightarrow> bool" where
  "isLegalKey key = (key \<noteq> [] \<and> list_all isLegalKeyChar key)"

text \<open>\<open>LEGAL_NON_BINARY_VALUE_REGEX = /^[ -~]*$/\<close>\<close>

definition isLegalNonBinaryValue :: "string \<Rightarrow> bool" where
  "isLegalNonBinaryValue v =
     list_all (\<lambda>c. 32 \<le> (of_char c :: nat) \<and> (of_char c :: nat) \<le> 126) v"

definition isBinaryKey :: "string \<Rightarrow> bool" where
  "isBinaryKey key = endsWith key ''-bin''"

definition normalizeKey :: "string \<Rightarrow> string" where
  "normalizeKey key = toLowerCase key"

definition dquote :: string where
  "dquote = [char_of (34 :: nat)]"

definition squote :: string where
  "squote = [char_of (39 :: nat)]"

text \<open>\<open>validate\<close> returns normally (\<open>None\<close>) or throws (\<open>Some\<close> of the exception).\<close>

definition validate :: "string \<Rightarrow> MetadataValue option \<Rightarrow> jsError option" where
  "validate key value =
     (if \<not> isLegalKey key
      then Some (Error (''Metadata key '' @ dquote @ key @ dquote @ '' contains illegal characters''))
      else (case value of
          None \<Rightarrow> None
        | Some v \<Rightarrow>
            if isBinaryKey key then
              (case v of
                 Buf b \<Rightarrow> None
               | Str s \<Rightarrow> Some (Error (''keys that end with '' @ squote @ ''-bin'' @ squote
                                        @ '' must have Buffer values'')))
            else
              (case v of
                 Buf b \<Rightarrow> Some (Error (''keys that don'' @ squote @ ''t end with '' @ squote
                                        @ ''-bin'' @ squote @ '' must have String values''))
               | Str s \<Rightarrow>
                   if \<not> isLegalNonBinaryValue s
                   then Some (Error (''Metadata string value '' @ dquote @ s @ dquote
                                     @ '' contains illegal characters''))
                   else None)))"

definition Metadata_set :: "string \<Rightarrow> MetadataValue \<Rightarrow> Metadata \<Rightarrow> jsError + Metadata" where
  "Metadata_set key value m =
     (let k = normalizeKey key in
      case validate k (Some value) of
        Some e \<Rightarrow> Inl e
      | None \<Rightarrow> Inr (AList.update k [value] m))"

definition Metadata_add :: "string \<Rightarrow> MetadataValue \<Rightarrow> Metadata \<Rightarrow> jsError + Metadata" where
  "Metadata_add key value m =
     (let k = normalizeKey key in
      case validate k (Some value) of
        Some e \<Rightarrow> Inl e
      | None \<Rightarrow>
          (case map_of m k of
             None \<Rightarrow> Inr (AList.update k [value] m)
           | Some existingValue \<Rightarrow> Inr (AList.update k (existingValue @ [value]) m)))"

definition Metadata_remove :: "string \<Rightarrow> Metadata \<Rightarrow> jsError + Metadata" where
  "Metadata_remove key m =
     (let k = normalizeKey key in
      case validate k None of
        Some e \<Rightarrow> Inl e
      | None \<Rightarrow> Inr (AList.delete k m))"

definition Metadata_get :: "string \<Rightarrow> Metadata \<Rightarrow> jsError + MetadataValue list" where
  "Metadata_get key m =
     (let k = normalizeKey key in
      case validate k None of
        Some e \<Rightarrow> Inl e
      | None \<Rightarrow> Inr (case map_of m k of Some vs \<Rightarrow> vs | None \<Rightarrow> []))"

definition Metadata_merge :: "Metadata \<Rightarrow> Metadata \<Rightarrow> Metadata" where
  "Metadata_merge other m =
     fold (\<lambda>(key, values) acc.
             AList.update key ((case map_of acc key of Some vs \<Rightarrow> vs | None \<Rightarrow> []) @ values) acc)
          other m"

text \<open>Header values of the http2 API: a number, a string or an array of strings.\<close>

datatype HeaderValue = HNum int | HStr string | HArr "string list"

type_synonym Http2Headers = "(string \<times> HeaderValue) list"

definition encodeValue :: "MetadataValue \<Rightarrow> string" where
  "encodeValue v = (case v of Buf b \<Rightarrow> base64_encode b | Str s \<Rightarrow> s)"

definition toHttp2Headers :: "Metadata \<Rightarrow> Http2Headers" where
  "toHttp2Headers m =
     fold (\<lambda>(key, values) result. Object_set key (HArr (map encodeValue values)) result) m []"

text \<open>
  A \<open>forEach\<close> of \<open>result.add\<close> under the \<open>try\<close> of \<open>fromHttp2Headers\<close>: the first
  exception ends the loop, the \<open>catch\<close> emits a warning, and what was added stays.
\<close>

fun addAll :: "string \<Rightarrow> MetadataValue list \<Rightarrow> Metadata \<Rightarrow> Metadata" where
  "addAll key [] result = result"
| "addAll key (v # vs) result =
     (case Metadata_add key v result of
        Inl e \<Rightarrow> result
      | Inr result' \<Rightarrow> addAll key vs result')"

text \<open>
  The body of the loop over \<open>Object.keys(headers)\<close>. A value that is neither an array nor
  undefined is split at commas; a number has no \<open>split\<close>, and the TypeError is caught.
\<close>

definition fromHeaderEntry :: "string \<Rightarrow> HeaderValue option \<Rightarrow> Metadata \<Rightarrow> Metadata" where
  "fromHeaderEntry key values result =
     (if take 1 key = '':'' then result
      else if isBinaryKey key then
        (case values of
           Some (HArr vs) \<Rightarrow> addAll key (map (\<lambda>value. Buf (base64_decode value)) vs) result
         | Some (HStr s) \<Rightarrow>
             addAll key (map (\<lambda>v. Buf (base64_decode (trim v))) (splitComma s)) result
         | Some (HNum n) \<Rightarrow> result
         | None \<Rightarrow> result)
      else
        (case values of
           Some (HArr vs) \<Rightarrow> addAll key (map Str vs) result
         | Some (HStr s) \<Rightarrow> addAll key (map (\<lambda>v. Str (trim v)) (splitComma s)) result
         | Some (HNum n) \<Rightarrow> result
         | None \<Rightarrow> result))"

definition fromHttp2Headers :: "Http2Headers \<Rightarrow> Metadata" where
  "fromHttp2Headers headers =
     fold (\<lambda>key result. fromHeaderEntry key (map_of headers key) result) (Object_keys headers) []"


section \<open>The server-side call object (server-call.ts)\<close>

text \<open>
  \<open>PartialServiceError\<close>: an error object or any thrown value, each own property present
  (\<open>Some\<close>) or absent (\<open>None\<close>). \<open>code\<close> has the type \<open>Status\<close>, so a present code
  passes \<open>Number.isInteger\<close>. \<open>new Error(msg)\<close> has the own property \<open>message\<close> only.
\<close>

record ServiceError =
  error_message :: "string option"
  error_code :: "int option"
  error_details :: "string option"
  error_metadata :: "Metadata option"

definition newError :: "string \<Rightarrow> ServiceError" where
  "newError msg =
     \<lparr>error_message = Some msg, error_code = None, error_details = None, error_metadata = None\<rparr>"

definition thrownError :: "jsError \<Rightarrow> ServiceError" where
  "thrownError e = (case e of Error m \<Rightarrow> newError m | TypeError m \<Rightarrow> newError m
                    | SyntaxError m \<Rightarrow> newError m)"

text \<open>
  The \<open>status\<close> field of a call. It is initialised with a code and details, and
  \<open>sendError\<close> assigns both from values it has checked, so they are always present.
\<close>

record ServerStatus =
  status_code :: int
  status_details :: string
  status_metadata :: "Metadata option"

text \<open>
  The HTTP/2 stream of the runtime, seen from the call: whether headers were sent, the RST
  code, and the operations invoked on the stream in order (everything that is emitted on
  it).
\<close>

datatype StreamOp =
    Respond Http2Headers
  | Write "byte list"
  | End "byte list option"
  | SendTrailers Http2Headers

record ServerHttp2Stream =
  headersSent :: bool
  rstCode :: nat
  emitted :: "StreamOp list"

datatype HandlerType = bidi | clientStream | serverStream | unary

text \<open>
  A registered handler. \<open>func\<close> is application code that runs after the dispatch and
  is not part of the record; \<open>serialize\<close> and \<open>deserialize\<close> return or throw.
\<close>

record ('req, 'resp) Handler =
  serialize :: "'resp \<Rightarrow> ServiceError + byte list"
  deserialize :: "byte list \<Rightarrow> ServiceError + 'req"
  handlerType :: HandlerType

text \<open>
  \<open>Http2ServerCallStream\<close>. \<open>deadline\<close> holds the delay of the armed timer.
  \<open>wantTrailersListener\<close> tells whether the once-listener for \<open>wantTrailers\<close> that
  this object's \<open>sendMetadata\<close> registers on the stream is waiting: the listener is a
  closure over the object and reads the status of this object, also when another call
  object uses the same stream. \<open>defaultResponseHeaders\<close> is the module-level object that
  \<open>Object.assign\<close> writes into, as this call sees it: the constructor below is that of a
  freshly loaded module, and the dispatcher hands on what earlier calls left in it.
\<close>

record ('req, 'resp) Http2ServerCallStream =
  cancelled :: bool
  deadline :: "int option"
  status :: ServerStatus
  handler :: "('req, 'resp) Handler option"
  stream :: ServerHttp2Stream
  wantTrailersListener :: bool
  defaultResponseHeaders :: Http2Headers

definition initialResponseHeaders :: Http2Headers where
  "initialResponseHeaders =
     [(''grpc-accept-encoding'', HStr ''identity''),
      (''grpc-encoding'', HStr ''identity''),
      ('':status'', HNum 200),
      (''content-type'', HStr ''application/grpc+proto'')]"

definition newHttp2ServerCallStream ::
    "ServerHttp2Stream \<Rightarrow> ('req, 'resp) Handler option \<Rightarrow> ('req, 'resp) Http2ServerCallStream" where
  "newHttp2ServerCallStream s h =
     \<lparr>cancelled = False, deadline = None,
      status = \<lparr>status_code = Status_OK, status_details = ''OK'', status_metadata = None\<rparr>,
      handler = h, stream = s, wantTrailersListener = False,
      defaultResponseHeaders = initialResponseHeaders\<rparr>"

text \<open>\<open>Object.assign(target, source)\<close>\<close>

definition Object_assign :: "(string \<times> 'v) list \<Rightarrow> (string \<times> 'v) list \<Rightarrow> (string \<times> 'v) list" where
  "Object_assign target source =
     fold (\<lambda>key t. case map_of source key of Some v \<Rightarrow> Object_set key v t | None \<Rightarrow> t)
          (Object_keys source) target"

text \<open>
  \<open>encodeURI\<close> of the runtime on 8-bit code units: letters, digits and the reserved and
  unreserved marks stay, every other unit is written as the percent-escaped bytes of its
  UTF-8 form.
\<close>

definition hexDigit :: "nat \<Rightarrow> char" where
  "hexDigit n = (if n < 10 then char_of (48 + n) else char_of (55 + n))"

definition percentByte :: "nat \<Rightarrow> string" where
  "percentByte b = [CHR ''%'', hexDigit (b div 16), hexDigit (b mod 16)]"

definition uriUnescaped :: "char \<Rightarrow> bool" where
  "uriUnescaped c =
     (let n = (of_char c :: nat) in
      (65 \<le> n \<and> n \<le> 90) \<or> (97 \<le> n \<and> n \<le> 122) \<or> (48 \<le> n \<and> n \<le> 57)
      \<or> c \<in> set '';/?:@&=+$,-_.!~*()#'' \<or> n = 39)"

definition encodeURI :: "string \<Rightarrow> string" where
  "encodeURI s =
     concat (map (\<lambda>c. let n = (of_char c :: nat) in
                       if uriUnescaped c then [c]
                       else if n < 128 then percentByte n
                       else percentByte (192 + n div 64) @ percentByte (128 + n mod 64)) s)"

definition sendMetadata ::
    "Metadata option \<Rightarrow> ('req, 'resp) Http2ServerCallStream \<Rightarrow> ('req, 'resp) Http2ServerCallStream" where
  "sendMetadata customMetadata call =
     (if headersSent (stream call) then call
      else
        let custom = (case customMetadata of Some m \<Rightarrow> toHttp2Headers m | None \<Rightarrow> []);
            headers = Object_assign (defaultResponseHeaders call) custom
        in call\<lparr>defaultResponseHeaders := headers,
                wantTrailersListener := True,
                stream := (stream call)\<lparr>headersSent := True,
                                         emitted := emitted (stream call) @ [Respond headers]\<rparr>\<rparr>)"

text \<open>
  The once-listener that \<open>sendMetadata\<close> registers for \<open>wantTrailers\<close>: it runs on the
  call object that registered it, and on no other.
\<close>

definition trailersToSend :: "ServerStatus \<Rightarrow> Http2Headers" where
  "trailersToSend st =
     (let t = [(''grpc-status'', HNum (status_code st)),
               (''grpc-message'', HStr (encodeURI (status_details st)))]
      in case status_metadata st of
           Some md \<Rightarrow> Object_assign t (toHttp2Headers md)
         | None \<Rightarrow> t)"

definition onWantTrailers ::
    "('req, 'resp) Http2ServerCallStream \<Rightarrow> ('req, 'resp) Http2ServerCallStream" where
  "onWantTrailers call =
     (if wantTrailersListener call
      then call\<lparr>wantTrailersListener := False,
                stream := (stream call)\<lparr>emitted := emitted (stream call)
                            @ [SendTrailers (trailersToSend (status call))]\<rparr>\<rparr>
      else call)"

definition server_write ::
    "byte list \<Rightarrow> ('req, 'resp) Http2ServerCallStream \<Rightarrow> ('req, 'resp) Http2ServerCallStream" where
  "server_write chunk call =
     (if cancelled call = True then call
      else
        let call1 = sendMetadata None call
        in call1\<lparr>stream := (stream call1)\<lparr>emitted := emitted (stream call1) @ [Write chunk]\<rparr>\<rparr>)"

definition server_end ::
    "byte list option \<Rightarrow> ('req, 'resp) Http2ServerCallStream \<Rightarrow> ('req, 'resp) Http2ServerCallStream" where
  "server_end payload call =
     (if cancelled call = True then call
      else
        let call1 = (if deadline call \<noteq> None then call\<lparr>deadline := None\<rparr> else call);
            call2 = sendMetadata None call1
        in call2\<lparr>stream := (stream call2)\<lparr>emitted := emitted (stream call2) @ [End payload]\<rparr>\<rparr>)"

definition sendError ::
    "ServiceError \<Rightarrow> int \<Rightarrow> ('req, 'resp) Http2ServerCallStream \<Rightarrow> ('req, 'resp) Http2ServerCallStream" where
  "sendError error code call =
     (let st = status call;
          st1 = (case error_message error of
                   Some m \<Rightarrow> st\<lparr>status_details := m\<rparr>
                 | None \<Rightarrow> st\<lparr>status_details := ''Unknown Error''\<rparr>);
          st2 = (case error_code error of
                   Some c \<Rightarrow>
                     (case error_details error of
                        Some d \<Rightarrow> st1\<lparr>status_code := c, status_details := d\<rparr>
                      | None \<Rightarrow> st1\<lparr>status_code := c\<rparr>)
                 | None \<Rightarrow> st1\<lparr>status_code := code\<rparr>);
          st3 = (case error_metadata error of
                   Some md \<Rightarrow> st2\<lparr>status_metadata := Some md\<rparr>
                 | None \<Rightarrow> st2)
      in server_end None (call\<lparr>status := st3\<rparr>))"

definition handleExpiredDeadline ::
    "('req, 'resp) Http2ServerCallStream \<Rightarrow> ('req, 'resp) Http2ServerCallStream" where
  "handleExpiredDeadline call =
     (sendError (newError ''Deadline exceeded'') Status_DEADLINE_EXCEEDED call)\<lparr>cancelled := True\<rparr>"

text \<open>The listeners the constructor registers on the stream.\<close>

definition onStreamError ::
    "ServiceError \<Rightarrow> ('req, 'resp) Http2ServerCallStream \<Rightarrow> ('req, 'resp) Http2ServerCallStream" where
  "onStreamError err call = sendError err Status_INTERNAL call"

definition onStreamClose ::
    "('req, 'resp) Http2ServerCallStream \<Rightarrow> ('req, 'resp) Http2ServerCallStream" where
  "onStreamClose call =
     (if rstCode (stream call) = NGHTTP2_CANCEL then call\<lparr>cancelled := True\<rparr> else call)"

text \<open>The 5-byte frame prefix: flag 0 and the length as a big-endian 32-bit number.\<close>

definition frameMessage :: "byte list \<Rightarrow> byte list" where
  "frameMessage messageBuffer =
     (let n = length messageBuffer in
      [0, of_nat (n div 16777216), of_nat (n div 65536), of_nat (n div 256), of_nat n]
      @ messageBuffer)"

definition serializeMessage ::
    "'resp \<Rightarrow> ('req, 'resp) Http2ServerCallStream \<Rightarrow> ServiceError + byte list" where
  "serializeMessage value call =
     (case handler call of
        None \<Rightarrow> Inl (thrownError (TypeError ''Cannot read property serialize of null''))
      | Some h \<Rightarrow>
          (case serialize h value of
             Inl e \<Rightarrow> Inl e
           | Inr messageBuffer \<Rightarrow> Inr (frameMessage messageBuffer)))"

definition sendUnaryMessage ::
    "ServiceError option \<Rightarrow> 'resp \<Rightarrow> Metadata option \<Rightarrow> ('req, 'resp) Http2ServerCallStream
       \<Rightarrow> ('req, 'resp) Http2ServerCallStream" where
  "sendUnaryMessage err value metadata call =
     (case err of
        Some e \<Rightarrow>
          sendError (case metadata of Some md \<Rightarrow> e\<lparr>error_metadata := Some md\<rparr> | None \<Rightarrow> e)
                    Status_UNKNOWN call
      | None \<Rightarrow>
          (case serializeMessage value call of
             Inr response \<Rightarrow>
               server_end (Some response)
                 (case metadata of
                    Some md \<Rightarrow> call\<lparr>status := (status call)\<lparr>status_metadata := Some md\<rparr>\<rparr>
                  | None \<Rightarrow> call)
           | Inl e \<Rightarrow> sendError e Status_INTERNAL call))"


subsection \<open>The grpc-timeout header\<close>

text \<open>
  \<open>DEADLINE_REGEX = /(\d{1,8})\s*([HMSmun])/\<close>, applied with \<open>String.prototype.match\<close>.
  The pattern has no anchors, so the match may begin at any position; the leftmost start
  that matches wins. At a start, \<open>\d{1,8}\<close> is greedy and backtracks: it is tried with
  eight digits, then seven, down to one. \<open>\s*\<close> takes every space that follows (a unit
  letter is no space, so giving one back cannot help), and the next unit must be a unit
  letter. The result is the pair of the two groups.
\<close>

definition isDeadlineUnit :: "char \<Rightarrow> bool" where
  "isDeadlineUnit c = (c \<in> set ''HMSmun'')"

definition matchDeadlineWith :: "nat \<Rightarrow> string \<Rightarrow> (string \<times> char) option" where
  "matchDeadlineWith d s =
     (if d \<le> length s \<and> list_all isDigit (take d s)
      then (case dropWhile isSpace (drop d s) of
              u # rest \<Rightarrow> if isDeadlineUnit u then Some (take d s, u) else None
            | [] \<Rightarrow> None)
      else None)"

fun matchDeadlineAt :: "nat \<Rightarrow> string \<Rightarrow> (string \<times> char) option" where
  "matchDeadlineAt 0 s = None"
| "matchDeadlineAt (Suc d) s =
     (case matchDeadlineWith (Suc d) s of
        Some r \<Rightarrow> Some r
      | None \<Rightarrow> matchDeadlineAt d s)"

fun DEADLINE_REGEX_match :: "string \<Rightarrow> (string \<times> char) option" where
  "DEADLINE_REGEX_match [] = None"
| "DEADLINE_REGEX_match (c # cs) =
     (case matchDeadlineAt 8 (c # cs) of
        Some r \<Rightarrow> Some r
      | None \<Rightarrow> DEADLINE_REGEX_match cs)"

text \<open>
  The shape the specification gives, \<open>^(\d{1,8})\s*([HMSmun])$\<close>: the whole value is one
  to eight digits, optional spaces and one unit letter.
\<close>

definition spec_deadline_shape :: "string \<Rightarrow> bool" where
  "spec_deadline_shape s =
     (let ds = takeWhile isDigit s in
      1 \<le> length ds \<and> length ds \<le> 8
      \<and> (case dropWhile isSpace (drop (length ds) s) of
            [u] \<Rightarrow> isDeadlineUnit u
          | _ \<Rightarrow> False))"

text \<open>
  \<open>deadlineUnitsToMs\<close>. JavaScript numbers are IEEE-754 binary64 values; a table entry is
  written as the pair \<open>(m, e)\<close> of the value \<open>m * 2 ^ e\<close> it denotes exactly
  (\<open>0.001\<close> and \<open>0.000001\<close> are the nearest binary64 values to the decimals).
\<close>

definition deadlineUnitsToMs :: "char \<Rightarrow> nat \<times> int" where
  "deadlineUnitsToMs u =
     (if u = CHR ''H'' then (3600000, 0)
      else if u = CHR ''M'' then (60000, 0)
      else if u = CHR ''S'' then (1000, 0)
      else if u = CHR ''m'' then (1, 0)
      else if u = CHR ''u'' then (4611686018427388, - 62)
      else (4722366482869645, - 72))"

fun bitLength :: "nat \<Rightarrow> nat" where
  "bitLength n = (if n = 0 then 0 else Suc (bitLength (n div 2)))"

text \<open>
  The binary64 product of an integer \<open>n\<close> (below \<open>2 ^ 53\<close>) and \<open>m * 2 ^ e\<close>: the exact
  product, rounded to 53 significant bits, ties to even. \<open>k\<close> is the number of bits to
  give up; the subtraction is on natural numbers, so a product of at most 53 bits has
  \<open>k = 0\<close> and is exact.
\<close>

definition mulDouble :: "nat \<Rightarrow> nat \<times> int \<Rightarrow> nat \<times> int" where
  "mulDouble n d =
     (let p = n * fst d; k = bitLength p - 53 in
      if k = 0 then (p, snd d)
      else
        let q = p div 2 ^ k; r = p mod 2 ^ k; half = 2 ^ (k - 1);
            q' = (if r < half then q else if half < r then q + 1
                  else if even q then q else q + 1)
        in (q', snd d + int k))"

text \<open>\<open>x | 0\<close> on a non-negative binary64 value: truncate, then wrap to a signed 32-bit integer.\<close>

definition truncDouble :: "nat \<times> int \<Rightarrow> int" where
  "truncDouble d =
     (if 0 \<le> snd d then int (fst d * 2 ^ nat (snd d)) else int (fst d div 2 ^ nat (- snd d)))"

definition toInt32 :: "int \<Rightarrow> int" where
  "toInt32 x = (x + 2 ^ 31) mod 2 ^ 32 - 2 ^ 31"

definition deadlineTimeout :: "string \<times> char \<Rightarrow> int" where
  "deadlineTimeout match =
     toInt32 (truncDouble (mulDouble (digitsToNat (fst match)) (deadlineUnitsToMs (snd match))))"

text \<open>\<open>value.toString()\<close> of a metadata value (a Buffer is read as 8-bit code units).\<close>

definition valueToString :: "MetadataValue \<Rightarrow> string" where
  "valueToString v = (case v of Str s \<Rightarrow> s | Buf b \<Rightarrow> map (\<lambda>x. char_of (unat x)) b)"

text \<open>
  \<open>receiveMetadata\<close> returns the metadata, or \<open>undefined\<close> after it has sent the
  invalid-deadline error; an exception of the metadata container would leave it as \<open>Inl\<close>.
\<close>

definition receiveMetadata ::
    "Http2Headers \<Rightarrow> ('req, 'resp) Http2ServerCallStream
       \<Rightarrow> jsError + (Metadata option \<times> ('req, 'resp) Http2ServerCallStream)" where
  "receiveMetadata headers call =
     (let metadata = fromHttp2Headers headers in
      case Metadata_get ''grpc-timeout'' metadata of
        Inl e \<Rightarrow> Inl e
      | Inr timeoutHeader \<Rightarrow>
          (case timeoutHeader of
             [] \<Rightarrow> Inr (Some metadata, call)
           | v # vs \<Rightarrow>
               (case DEADLINE_REGEX_match (valueToString v) of
                  None \<Rightarrow>
                    Inr (None, sendError (newError ''Invalid deadline'') Status_OUT_OF_RANGE call)
                | Some match \<Rightarrow>
                    (case Metadata_remove ''grpc-timeout'' metadata of
                       Inl e \<Rightarrow> Inl e
                     | Inr metadata' \<Rightarrow>
                         Inr (Some metadata', call\<lparr>deadline := Some (deadlineTimeout match)\<rparr>)))))"

text \<open>The timer armed by \<open>receiveMetadata\<close> fires unless \<open>server_end\<close> has cleared it.\<close>

definition onDeadlineTimer ::
    "('req, 'resp) Http2ServerCallStream \<Rightarrow> ('req, 'resp) Http2ServerCallStream" where
  "onDeadlineTimer call = (if deadline call = None then call else handleExpiredDeadline call)"

section \<open>The server's stream dispatcher (server.ts)\<close>

text \<open>
  \<open>unimplementedStatusResponse\<close> is one module-level object; whoever holds it can assign
  to its properties, so it is part of the server's state. So is
  \<open>defaultResponseHeaders\<close> of server-call.ts, which \<open>sendMetadata\<close> assigns custom
  metadata into: \<open>moduleResponseHeaders\<close> is that object as the calls before have left
  it.
\<close>

record ('req, 'resp) Server =
  started :: bool
  handlers :: "(string \<times> ('req, 'resp) Handler) list"
  unimplementedStatusResponse :: ServiceError
  moduleResponseHeaders :: Http2Headers

definition initialUnimplementedStatusResponse :: ServiceError where
  "initialUnimplementedStatusResponse =
     \<lparr>error_message = None, error_code = Some Status_UNIMPLEMENTED,
      error_details = Some ''The server does not implement this method'',
      error_metadata = None\<rparr>"

definition newServer :: "('req, 'resp) Server" where
  "newServer = \<lparr>started = False, handlers = [],
                unimplementedStatusResponse = initialUnimplementedStatusResponse,
                moduleResponseHeaders = initialResponseHeaders\<rparr>"

definition register ::
    "string \<Rightarrow> ('req, 'resp) Handler \<Rightarrow> ('req, 'resp) Server \<Rightarrow> bool \<times> ('req, 'resp) Server" where
  "register name h srv =
     (if map_of (handlers srv) name \<noteq> None then (False, srv)
      else (True, srv\<lparr>handlers := AList.update name h (handlers srv)\<rparr>))"

text \<open>
  What the \<open>stream\<close> listener has done when it returns. After a failure there can be two
  call objects on the one stream: the object the \<open>try\<close> block had created before the
  exception, if any, and the object of the \<open>catch\<close> block. Both are given with the stream
  as the listener left it.
\<close>

datatype ('req, 'resp) StreamOutcome =
    NotStarted ServerHttp2Stream
  | Dispatched HandlerType "Metadata option" "('req, 'resp) Http2ServerCallStream"
  | Failed "('req, 'resp) Http2ServerCallStream option" "('req, 'resp) Http2ServerCallStream"

text \<open>
  A value thrown inside the \<open>try\<close>: the exception, whether it is the shared
  \<open>unimplementedStatusResponse\<close> object, and the call object the \<open>try\<close> had created.
\<close>

datatype ('req, 'resp) Thrown =
  Thrown ServiceError bool "('req, 'resp) Http2ServerCallStream option"

definition tryDispatch ::
    "('req, 'resp) Server \<Rightarrow> ServerHttp2Stream \<Rightarrow> Http2Headers
       \<Rightarrow> ('req, 'resp) Thrown
           + (HandlerType \<times> Metadata option \<times> ('req, 'resp) Http2ServerCallStream)" where
  "tryDispatch srv s headers =
     (case (case map_of headers '':path'' of
              Some (HStr path) \<Rightarrow> map_of (handlers srv) path
            | _ \<Rightarrow> None) of
        None \<Rightarrow> Inl (Thrown (unimplementedStatusResponse srv) True None)
      | Some h \<Rightarrow>
          (let call0 = (newHttp2ServerCallStream s (Some h))
                         \<lparr>defaultResponseHeaders := moduleResponseHeaders srv\<rparr>
           in case receiveMetadata headers call0 of
                Inl e \<Rightarrow> Inl (Thrown (thrownError e) False (Some call0))
              | Inr (metadata, call) \<Rightarrow>
                  (case handlerType h of
                     unary \<Rightarrow> Inr (unary, metadata, call)
                   | clientStream \<Rightarrow>
                       Inl (Thrown (newError ''not implemented yet'') False (Some call))
                   | serverStream \<Rightarrow> Inr (serverStream, metadata, call)
                   | bidi \<Rightarrow> Inl (Thrown (newError ''not implemented yet'') False (Some call)))))"

definition onStream ::
    "('req, 'resp) Server \<Rightarrow> ServerHttp2Stream \<Rightarrow> Http2Headers
       \<Rightarrow> ('req, 'resp) Server \<times> ('req, 'resp) StreamOutcome" where
  "onStream srv s headers =
     (if started srv \<noteq> True
      then (srv, NotStarted (s\<lparr>emitted := emitted s @ [End None]\<rparr>))
      else
        (case tryDispatch srv s headers of
           Inr (t, metadata, call) \<Rightarrow>
             (srv\<lparr>moduleResponseHeaders := defaultResponseHeaders call\<rparr>,
              Dispatched t metadata call)
         | Inl (Thrown err shared first) \<Rightarrow>
             (let s' = (case first of Some c \<Rightarrow> stream c | None \<Rightarrow> s);
                  hs = (case first of
                          Some c \<Rightarrow> defaultResponseHeaders c
                        | None \<Rightarrow> moduleResponseHeaders srv);
                  call = (newHttp2ServerCallStream s' None)\<lparr>defaultResponseHeaders := hs\<rparr>;
                  err' = err\<lparr>error_code := Some Status_INTERNAL\<rparr>;
                  srv' = (if shared then srv\<lparr>unimplementedStatusResponse := err'\<rparr> else srv);
                  call' = sendError err' Status_UNKNOWN call
              in (srv'\<lparr>moduleResponseHeaders := defaultResponseHeaders call'\<rparr>,
                  Failed (map_option
                            (\<lambda>c. c\<lparr>stream := stream call',
                                   defaultResponseHeaders := defaultResponseHeaders call'\<rparr>)
                            first)
                         call'))))"

text \<open>
  The \<open>wantTrailers\<close> event of the stream after a failure: the one waiting listener runs,
  on the object that registered it.
\<close>

definition onWantTrailersFailed ::
    "('req, 'resp) Http2ServerCallStream option \<Rightarrow> ('req, 'resp) Http2ServerCallStream
       \<Rightarrow> ServerHttp2Stream" where
  "onWantTrailersFailed first second =
     (case first of
        Some c \<Rightarrow>
          if wantTrailersListener c then stream (onWantTrailers c)
          else stream (onWantTrailers second)
      | None \<Rightarrow> stream (onWantTrailers second))"

definition newStream :: ServerHttp2Stream where
  "newStream = \<lparr>headersSent = False, rstCode = 0, emitted = []\<rparr>"

subsection \<open>Legal metadata\<close>

text \<open>
  A metadata object is legal when its keys are distinct and legal, every key has at least
  one value (no public operation leaves a key without values), a key ending in \<open>-bin\<close>
  has Buffer values only, and every other key has strings of printable ASCII only.
\<close>

definition legalValue :: "string \<Rightarrow> MetadataValue \<Rightarrow> bool" where
  "legalValue key v =
     (case v of
        Buf b \<Rightarrow> isBinaryKey key
      | Str s \<Rightarrow> \<not> isBinaryKey key \<and> isLegalNonBinaryValue s)"

definition legalEntry :: "string \<times> MetadataValue list \<Rightarrow> bool" where
  "legalEntry entry =
     (isLegalKey (fst entry) \<and> snd entry \<noteq> [] \<and> list_all (legalValue (fst entry)) (snd entry))"

definition legalMetadata :: "Metadata \<Rightarrow> bool" where
  "legalMetadata m = (distinct (map fst m) \<and> list_all legalEntry m)"

text \<open>The 6-bit values that the decoder reads from a string.\<close>

definition sextets :: "string \<Rightarrow> nat list" where
  "sextets s = List.map_filter unbase64 (takeWhile (\<lambda>c. c \<noteq> CHR ''='') s)"

text \<open>
  Two legal objects. The first has the key \<open>1\<close>, which \<open>Object.keys\<close> moves to the front.
\<close>

definition exampleMetadata :: Metadata where
  "exampleMetadata =
     [(''b'', [Str ''x y'']), (''1'', [Str ''y'', Str ''z'']),
      (''k-bin'', [Buf [1, 2, 255], Buf []])]"

definition exampleMetadataPlain :: Metadata where
  "exampleMetadataPlain =
     [(''k-bin'', [Buf [1, 2, 255], Buf [7]]), (''user-agent'', [Str ''grpc-node/1.0''])]"

text \<open>
  A legal object that \<open>metadata.set('__proto__', 'x')\<close> builds from the empty one.
\<close>

definition protoMetadata :: Metadata where
  "protoMetadata = [(''__proto__'', [Str ''x''])]"

subsection \<open>Sequences of writes and ends, and two concrete handlers\<close>

datatype CallOp = OpWrite "byte list" | OpEnd "byte list option"

fun applyCallOp ::
    "CallOp \<Rightarrow> ('req, 'resp) Http2ServerCallStream \<Rightarrow> ('req, 'resp) Http2ServerCallStream" where
  "applyCallOp (OpWrite chunk) call = server_write chunk call"
| "applyCallOp (OpEnd payload) call = server_end payload call"

text \<open>A handler whose serializer throws, and one that passes bytes through.\<close>

definition failingHandler :: "(unit, unit) Handler" where
  "failingHandler =
     \<lparr>serialize = (\<lambda>v. Inl (newError ''cannot serialize'')),
      deserialize = (\<lambda>b. Inr ()), handlerType = unary\<rparr>"

definition echoHandler :: "(byte list, byte list) Handler" where
  "echoHandler = \<lparr>serialize = Inr, deserialize = Inr, handlerType = unary\<rparr>"

text \<open>A handler of a method shape that the dispatcher does not implement.\<close>

definition clientStreamHandler :: "(byte list, byte list) Handler" where
  "clientStreamHandler = \<lparr>serialize = Inr, deserialize = Inr, handlerType = clientStream\<rparr>"

section \<open>The client-side call object (call-stream.ts)\<close>

record StatusObject =
  code :: int
  details :: string
  metadata :: Metadata

text \<open>
  What the call hands to its listener, in order. \<open>onReceiveStatus\<close> is called with
  \<open>this.finalStatus\<close>, whose type admits null.
\<close>

datatype ListenerEvent =
    OnReceiveMetadata Metadata
  | OnReceiveMessage "byte list"
  | OnReceiveStatus "StatusObject option"

text \<open>The operations the call invokes on its HTTP/2 stream.\<close>

datatype ClientStreamOp =
    StreamPause
  | StreamResume
  | StreamClose nat
  | StreamWrite "byte list"
  | StreamEnd

text \<open>
  The filter stack is built by a factory outside these sources. Its synchronous transforms
  return or throw; its \<open>receiveMessage\<close> transform returns a promise, whose settlement
  reaches the call as a later event.
\<close>

record FilterStack =
  receiveMetadataFilter :: "Metadata \<Rightarrow> jsError + Metadata"
  receiveTrailersFilter :: "StatusObject \<Rightarrow> jsError + StatusObject"

text \<open>
  \<open>Http2CallStream\<close>. \<open>http2Stream\<close> tells whether a stream is attached and
  \<open>streamOps\<close> lists what was invoked on it; \<open>callRefs\<close> is the number of \<open>callRef\<close>
  minus the number of \<open>callUnref\<close> calls made on the subchannel; \<open>delivered\<close> is the
  listener's view; \<open>pendingStatusTicks\<close> counts the callbacks that \<open>outputStatus\<close> has
  handed to \<open>process.nextTick\<close> and that have not run yet.
\<close>

record Http2CallStream =
  http2Stream :: bool
  streamDestroyed :: bool
  streamOps :: "ClientStreamOp list"
  pendingRead :: bool
  pendingWrite :: "byte list option"
  writesClosed :: bool
  isReadFilterPending :: bool
  canPush :: bool
  readsClosed :: bool
  statusOutput :: bool
  unpushedReadMessages :: "byte list option list"
  unfilteredReadMessages :: "byte list option list"
  mappedStatusCode :: int
  finalStatus :: "StatusObject option"
  subchannel :: bool
  callRefs :: int
  disconnectListenerAdded :: bool
  delivered :: "ListenerEvent list"
  pendingStatusTicks :: nat

definition newHttp2CallStream :: Http2CallStream where
  "newHttp2CallStream =
     \<lparr>http2Stream = False, streamDestroyed = False, streamOps = [], pendingRead = False,
      pendingWrite = None, writesClosed = False, isReadFilterPending = False,
      canPush = False, readsClosed = False, statusOutput = False,
      unpushedReadMessages = [], unfilteredReadMessages = [],
      mappedStatusCode = Status_UNKNOWN, finalStatus = None, subchannel = False,
      callRefs = 0, disconnectListenerAdded = False, delivered = [],
      pendingStatusTicks = 0\<rparr>"

definition outputStatus :: "Http2CallStream \<Rightarrow> Http2CallStream" where
  "outputStatus s =
     (if \<not> statusOutput s then
        let s1 = s\<lparr>statusOutput := True, pendingStatusTicks := Suc (pendingStatusTicks s)\<rparr>
        in if subchannel s1
           then s1\<lparr>callRefs := callRefs s1 - 1, disconnectListenerAdded := False\<rparr>
           else s1
      else s)"

text \<open>The callback that \<open>outputStatus\<close> defers: it reads \<open>finalStatus\<close> when it runs.\<close>

definition onTick :: "Http2CallStream \<Rightarrow> Http2CallStream" where
  "onTick s =
     (if 0 < pendingStatusTicks s
      then s\<lparr>pendingStatusTicks := pendingStatusTicks s - 1,
             delivered := delivered s @ [OnReceiveStatus (finalStatus s)]\<rparr>
      else s)"

definition endCall :: "StatusObject \<Rightarrow> Http2CallStream \<Rightarrow> Http2CallStream" where
  "endCall st s =
     (if (case finalStatus s of None \<Rightarrow> True | Some f \<Rightarrow> code f = Status_OK) then
        let s1 = s\<lparr>finalStatus := Some st\<rparr>
        in if readsClosed s1 \<or> code st \<noteq> Status_OK then outputStatus s1 else s1
      else s)"

text \<open>\<open>push(null)\<close> and \<open>push(message)\<close>.\<close>

definition pushNull :: "Http2CallStream \<Rightarrow> Http2CallStream" where
  "pushNull s =
     (let s1 = s\<lparr>readsClosed := True\<rparr>
      in if finalStatus s1 \<noteq> None then outputStatus s1 else s1)"

definition pushMessage :: "byte list \<Rightarrow> Http2CallStream \<Rightarrow> Http2CallStream" where
  "pushMessage message s =
     (let s1 = s\<lparr>delivered := delivered s @ [OnReceiveMessage message]\<rparr>
      in case unpushedReadMessages s1 of
           None # rest \<Rightarrow> pushNull (s1\<lparr>unpushedReadMessages := rest\<rparr>)
         | _ \<Rightarrow> s1)"

definition push :: "byte list option \<Rightarrow> Http2CallStream \<Rightarrow> Http2CallStream" where
  "push message s = (case message of None \<Rightarrow> pushNull s | Some m \<Rightarrow> pushMessage m s)"

definition destroyHttp2Stream :: "Http2CallStream \<Rightarrow> Http2CallStream" where
  "destroyHttp2Stream s =
     (if http2Stream s \<and> \<not> streamDestroyed s
      then s\<lparr>streamOps := streamOps s @ [StreamClose NGHTTP2_CANCEL]\<rparr>
      else s)"

definition cancelWithStatus :: "int \<Rightarrow> string \<Rightarrow> Http2CallStream \<Rightarrow> Http2CallStream" where
  "cancelWithStatus st dt s =
     endCall \<lparr>code = st, details = dt, metadata = []\<rparr> (destroyHttp2Stream s)"

definition handleFilterError :: "string \<Rightarrow> Http2CallStream \<Rightarrow> Http2CallStream" where
  "handleFilterError msg s = cancelWithStatus Status_INTERNAL msg s"

text \<open>
  \<open>filterReceivedMessage\<close> starts the \<open>receiveMessage\<close> filter on a message; the promise
  settles later (\<open>handleFilteredRead\<close> or \<open>handleFilterError\<close>).
\<close>

definition filterReceivedMessage :: "byte list option \<Rightarrow> Http2CallStream \<Rightarrow> Http2CallStream" where
  "filterReceivedMessage framedMessage s =
     (if finalStatus s \<noteq> None then pushNull s
      else (case framedMessage of
              None \<Rightarrow>
                if canPush s then pushNull s
                else s\<lparr>unpushedReadMessages := unpushedReadMessages s @ [None]\<rparr>
            | Some m \<Rightarrow> s\<lparr>isReadFilterPending := True\<rparr>))"

definition handleFilteredRead :: "byte list \<Rightarrow> Http2CallStream \<Rightarrow> Http2CallStream" where
  "handleFilteredRead message s =
     (if finalStatus s \<noteq> None then pushNull s
      else
        let s1 = s\<lparr>isReadFilterPending := False\<rparr>;
            s2 = (if canPush s1
                  then (let s' = pushMessage message s1
                        in s'\<lparr>canPush := False, streamOps := streamOps s' @ [StreamPause]\<rparr>)
                  else s1\<lparr>unpushedReadMessages := unpushedReadMessages s1 @ [Some message]\<rparr>)
        in case unfilteredReadMessages s2 of
             [] \<Rightarrow> s2
           | nextMessage # rest \<Rightarrow>
               filterReceivedMessage nextMessage (s2\<lparr>unfilteredReadMessages := rest\<rparr>))"

definition tryPush :: "byte list option \<Rightarrow> Http2CallStream \<Rightarrow> Http2CallStream" where
  "tryPush messageBytes s =
     (if isReadFilterPending s
      then s\<lparr>unfilteredReadMessages := unfilteredReadMessages s @ [messageBytes]\<rparr>
      else filterReceivedMessage messageBytes s)"

definition handleTrailers :: "FilterStack \<Rightarrow> Http2Headers \<Rightarrow> Http2CallStream \<Rightarrow> Http2CallStream" where
  "handleTrailers fs headers s =
     (let st = \<lparr>code = mappedStatusCode s, details = [], metadata = fromHttp2Headers headers\<rparr>
      in case receiveTrailersFilter fs st of
           Inl e \<Rightarrow>
             endCall \<lparr>code = Status_INTERNAL, details = ''Failed to process received status'',
                      metadata = []\<rparr> s
         | Inr final \<Rightarrow> endCall final s)"

text \<open>The listeners that \<open>attachHttp2Stream\<close> registers on the stream.\<close>

definition mapHttpStatus :: "HeaderValue option \<Rightarrow> int" where
  "mapHttpStatus v =
     (case v of
        Some (HNum n) \<Rightarrow>
          if n = 400 then Status_INTERNAL
          else if n = 401 then Status_UNAUTHENTICATED
          else if n = 403 then Status_PERMISSION_DENIED
          else if n = 404 then Status_UNIMPLEMENTED
          else if n = 429 \<or> n = 502 \<or> n = 503 \<or> n = 504 then Status_UNAVAILABLE
          else Status_UNKNOWN
      | _ \<Rightarrow> Status_UNKNOWN)"

definition errorMessage :: "jsError \<Rightarrow> string" where
  "errorMessage e = (case e of Error m \<Rightarrow> m | TypeError m \<Rightarrow> m | SyntaxError m \<Rightarrow> m)"

definition onResponse ::
    "FilterStack \<Rightarrow> Http2Headers \<Rightarrow> bool \<Rightarrow> Http2CallStream \<Rightarrow> Http2CallStream" where
  "onResponse fs headers endStream s =
     (let s1 = s\<lparr>mappedStatusCode := mapHttpStatus (map_of headers '':status'')\<rparr>
      in if endStream then handleTrailers fs headers s1
         else (case receiveMetadataFilter fs (fromHttp2Headers headers) of
                 Inr finalMetadata \<Rightarrow>
                   s1\<lparr>delivered := delivered s1 @ [OnReceiveMetadata finalMetadata]\<rparr>
               | Inl e \<Rightarrow>
                   endCall \<lparr>code = Status_UNKNOWN, details = errorMessage e, metadata = []\<rparr>
                     (destroyHttp2Stream s1)))"

definition onData :: "byte list list \<Rightarrow> Http2CallStream \<Rightarrow> Http2CallStream" where
  "onData messages s = fold (\<lambda>message. tryPush (Some message)) messages s"

definition onEnd :: "Http2CallStream \<Rightarrow> Http2CallStream" where
  "onEnd s = tryPush None s"

text \<open>The \<open>close\<close> listener: the status that stands for an RST_STREAM code.\<close>

definition rstStatus :: "nat \<Rightarrow> StatusObject" where
  "rstStatus rst =
     (if rst = NGHTTP2_REFUSED_STREAM
        then \<lparr>code = Status_UNAVAILABLE, details = ''Stream refused by server'', metadata = []\<rparr>
      else if rst = NGHTTP2_CANCEL
        then \<lparr>code = Status_CANCELLED, details = ''Call cancelled'', metadata = []\<rparr>
      else if rst = NGHTTP2_ENHANCE_YOUR_CALM
        then \<lparr>code = Status_RESOURCE_EXHAUSTED, details = ''Bandwidth exhausted'', metadata = []\<rparr>
      else if rst = NGHTTP2_INADEQUATE_SECURITY
        then \<lparr>code = Status_PERMISSION_DENIED, details = ''Protocol not secure enough'',
              metadata = []\<rparr>
      else \<lparr>code = Status_INTERNAL, details = [], metadata = []\<rparr>)"

definition onClose :: "nat \<Rightarrow> Http2CallStream \<Rightarrow> Http2CallStream" where
  "onClose rst s = endCall (rstStatus rst) (s\<lparr>streamDestroyed := True\<rparr>)"

definition disconnectListener :: "Http2CallStream \<Rightarrow> Http2CallStream" where
  "disconnectListener s =
     endCall \<lparr>code = Status_UNAVAILABLE, details = ''Connection dropped'', metadata = []\<rparr> s"

definition attachHttp2Stream :: "Http2CallStream \<Rightarrow> Http2CallStream" where
  "attachHttp2Stream s =
     (if finalStatus s \<noteq> None
      then s\<lparr>streamOps := streamOps s @ [StreamClose NGHTTP2_CANCEL]\<rparr>
      else
        let s1 = s\<lparr>http2Stream := True, subchannel := True, disconnectListenerAdded := True,
                   callRefs := callRefs s + 1\<rparr>;
            s2 = (if \<not> pendingRead s1 then s1\<lparr>streamOps := streamOps s1 @ [StreamPause]\<rparr>
                  else s1);
            s3 = (case pendingWrite s2 of
                    Some w \<Rightarrow> s2\<lparr>streamOps := streamOps s2 @ [StreamWrite w]\<rparr>
                  | None \<Rightarrow> s2)
        in if writesClosed s3 then s3\<lparr>streamOps := streamOps s3 @ [StreamEnd]\<rparr> else s3)"

definition startRead :: "Http2CallStream \<Rightarrow> Http2CallStream" where
  "startRead s =
     (if finalStatus s \<noteq> None then pushNull s
      else
        let s1 = s\<lparr>canPush := True\<rparr>
        in if \<not> http2Stream s1 then s1\<lparr>pendingRead := True\<rparr>
           else (case unpushedReadMessages s1 of
                   nextMessage # rest \<Rightarrow>
                     (push nextMessage (s1\<lparr>unpushedReadMessages := rest\<rparr>))\<lparr>canPush := False\<rparr>
                 | [] \<Rightarrow> s1\<lparr>streamOps := streamOps s1 @ [StreamResume]\<rparr>))"

text \<open>The settlement of the \<open>sendMessage\<close> filter in \<open>sendMessageWithContext\<close>.\<close>

definition onWriteFiltered :: "byte list \<Rightarrow> Http2CallStream \<Rightarrow> Http2CallStream" where
  "onWriteFiltered message s =
     (if \<not> http2Stream s then s\<lparr>pendingWrite := Some message\<rparr>
      else s\<lparr>streamOps := streamOps s @ [StreamWrite message]\<rparr>)"

definition halfClose :: "Http2CallStream \<Rightarrow> Http2CallStream" where
  "halfClose s =
     (let s1 = s\<lparr>writesClosed := True\<rparr>
      in if http2Stream s1 then s1\<lparr>streamOps := streamOps s1 @ [StreamEnd]\<rparr> else s1)"

subsection \<open>Runs of a client call\<close>

text \<open>
  Everything that can happen to a call: the methods its owner calls, the events of the
  attached stream, the settlements of the filter promises, the subchannel's disconnect
  notice and the deferred callback. Stream events and read-filter settlements exist only
  once a stream is attached, and the disconnect notice only while the listener is
  registered. A listener callback is an output; what the application does in response
  is a later event.
\<close>

datatype CallEvent =
    EvAttach
  | EvResponse Http2Headers bool
  | EvTrailers Http2Headers
  | EvData "byte list list"
  | EvEnd
  | EvClose nat
  | EvReadFiltered "byte list"
  | EvReadFilterError string
  | EvWriteFiltered "byte list"
  | EvWriteFilterError string
  | EvStartRead
  | EvHalfClose
  | EvCancelWithStatus int string
  | EvDisconnect
  | EvTick

fun callStep :: "FilterStack \<Rightarrow> CallEvent \<Rightarrow> Http2CallStream \<Rightarrow> Http2CallStream" where
  "callStep fs EvAttach s = attachHttp2Stream s"
| "callStep fs (EvResponse headers endStream) s =
     (if http2Stream s then onResponse fs headers endStream s else s)"
| "callStep fs (EvTrailers headers) s = (if http2Stream s then handleTrailers fs headers s else s)"
| "callStep fs (EvData messages) s = (if http2Stream s then onData messages s else s)"
| "callStep fs EvEnd s = (if http2Stream s then onEnd s else s)"
| "callStep fs (EvClose rst) s = (if http2Stream s then onClose rst s else s)"
| "callStep fs (EvReadFiltered message) s =
     (if http2Stream s then handleFilteredRead message s else s)"
| "callStep fs (EvReadFilterError msg) s = (if http2Stream s then handleFilterError msg s else s)"
| "callStep fs (EvWriteFiltered message) s = onWriteFiltered message s"
| "callStep fs (EvWriteFilterError msg) s = handleFilterError msg s"
| "callStep fs EvStartRead s = startRead s"
| "callStep fs EvHalfClose s = halfClose s"
| "callStep fs (EvCancelWithStatus st dt) s = cancelWithStatus st dt s"
| "callStep fs EvDisconnect s = (if disconnectListenerAdded s then disconnectListener s else s)"
| "callStep fs EvTick s = onTick s"

definition callRun :: "FilterStack \<Rightarrow> CallEvent list \<Rightarrow> Http2CallStream \<Rightarrow> Http2CallStream" where
  "callRun fs evs s = fold (callStep fs) evs s"

text \<open>The listener's view: how many statuses it saw, and whether a message followed one.\<close>

fun isStatusEvent :: "ListenerEvent \<Rightarrow> bool" where
  "isStatusEvent (OnReceiveStatus st) = True"
| "isStatusEvent _ = False"

fun isMessageEvent :: "ListenerEvent \<Rightarrow> bool" where
  "isMessageEvent (OnReceiveMessage m) = True"
| "isMessageEvent _ = False"

definition statusCount :: "ListenerEvent list \<Rightarrow> nat" where
  "statusCount evs = length (filter isStatusEvent evs)"

fun noMessageAfterStatus :: "ListenerEvent list \<Rightarrow> bool" where
  "noMessageAfterStatus [] = True"
| "noMessageAfterStatus (e # evs) =
     ((isStatusEvent e \<longrightarrow> \<not> list_ex isMessageEvent evs) \<and> noMessageAfterStatus evs)"

text \<open>
  The events that end a call in the state they meet: they reach \<open>endCall\<close> with a status
  other than OK.
\<close>

fun endsCall :: "CallEvent \<Rightarrow> Http2CallStream \<Rightarrow> bool" where
  "endsCall (EvCancelWithStatus st dt) s = (st \<noteq> Status_OK)"
| "endsCall (EvWriteFilterError msg) s = True"
| "endsCall (EvReadFilterError msg) s = http2Stream s"
| "endsCall (EvClose rst) s = http2Stream s"
| "endsCall EvDisconnect s = disconnectListenerAdded s"
| "endsCall _ s = False"

definition identityFilterStack :: FilterStack where
  "identityFilterStack = \<lparr>receiveMetadataFilter = Inr, receiveTrailersFilter = Inr\<rparr>"

subsection \<open>The latch of the final status, as predicates on the call\<close>

text \<open>
  A call has ended when its final status is set and is due: a status other than OK at
  once, the status OK as soon as the reads are closed.
\<close>

definition callEnded :: "Http2CallStream \<Rightarrow> bool" where
  "callEnded s =
     (case finalStatus s of
        None \<Rightarrow> False
      | Some f \<Rightarrow> readsClosed s \<or> code f \<noteq> Status_OK)"

text \<open>
  The events that close the reads of a call whose final status is set: they reach
  \<open>push(null)\<close> through the tests of \<open>finalStatus\<close> in \<open>startRead\<close>,
  \<open>filterReceivedMessage\<close> and \<open>handleFilteredRead\<close>.
\<close>

fun closesReads :: "CallEvent \<Rightarrow> Http2CallStream \<Rightarrow> bool" where
  "closesReads EvStartRead s = True"
| "closesReads EvEnd s = (http2Stream s \<and> \<not> isReadFilterPending s)"
| "closesReads (EvData messages) s = (http2Stream s \<and> \<not> isReadFilterPending s \<and> messages \<noteq> [])"
| "closesReads (EvReadFiltered message) s = http2Stream s"
| "closesReads _ s = False"

text \<open>
  \<open>callInv\<close> holds of every state a run reaches: the status has been output exactly when
  the call has ended; the statuses delivered and the deferred callbacks add up to one
  exactly when \<open>statusOutput\<close> is set; and no message follows a status.
  \<open>statusEmitted\<close> says that the deferred callback has run.
\<close>

definition callInv :: "Http2CallStream \<Rightarrow> bool" where
  "callInv s =
     (statusOutput s = callEnded s
      \<and> statusCount (delivered s) + pendingStatusTicks s = (if statusOutput s then 1 else 0)
      \<and> noMessageAfterStatus (delivered s))"

definition statusEmitted :: "Http2CallStream \<Rightarrow> bool" where
  "statusEmitted s = (finalStatus s \<noteq> None \<and> statusOutput s \<and> pendingStatusTicks s = 0)"

definition sameDelivered :: "Http2CallStream \<Rightarrow> Http2CallStream \<Rightarrow> bool" where
  "sameDelivered s t = (statusEmitted t \<and> delivered t = delivered s)"

text \<open>
  A filter stack whose trailers filter reads the status code from \<open>grpc-status\<close> (the
  filters themselves are outside these sources), and two runs under it: headers, one
  message that is read and trailers with status 0; and a call whose connection drops.
\<close>

definition exampleFilterStack :: FilterStack where
  "exampleFilterStack =
     \<lparr>receiveMetadataFilter = Inr,
      receiveTrailersFilter =
        (\<lambda>st. Inr (case map_of (metadata st) ''grpc-status'' of
                       Some [Str ''0''] \<Rightarrow> st\<lparr>code := Status_OK\<rparr>
                     | _ \<Rightarrow> st))\<rparr>"

definition exampleRun :: "CallEvent list" where
  "exampleRun =
     [EvAttach, EvStartRead, EvResponse [('':status'', HNum 200)] False, EvData [[1, 2]],
      EvReadFiltered [1, 2], EvTrailers [(''grpc-status'', HStr ''0'')]]"

definition droppedRun :: "CallEvent list" where
  "droppedRun = [EvAttach, EvDisconnect, EvTick]"

section \<open>Service configs (service-config.ts)\<close>

text \<open>
  The validated form of a service config. \<open>'lb\<close> is the type of a validated
  load-balancing config (load-balancing-config.ts is not among the sources). JSON numbers
  are rationals.
\<close>

record MethodConfigName =
  service :: string
  methodName :: "string option"

record MethodConfig =
  name :: "MethodConfigName list"
  waitForReady :: "bool option"
  timeout :: "string option"
  maxRequestBytes :: "rat option"
  maxResponseBytes :: "rat option"

record 'lb ServiceConfig =
  loadBalancingPolicy :: "string option"
  loadBalancingConfig :: "'lb list"
  methodConfig :: "MethodConfig list"

section \<open>The resolving load balancer (resolving-load-balancer.ts)\<close>

datatype ConnectivityState = IDLE | CONNECTING | READY | TRANSIENT_FAILURE | SHUTDOWN

text \<open>
  Pickers: the queue picker of the resolving balancer (alone, or wrapped around another
  picker so that the first pick calls \<open>exitIdle\<close>), the picker that fails every pick with a
  status, and the pickers of the child policy.
\<close>

datatype 'p Picker =
    QueuePicker "'p Picker option"
  | UnavailablePicker StatusObject
  | ChildPicker 'p

datatype ('lb, 'cs) ConfigSelector =
    GivenConfigSelector 'cs
  | DefaultConfigSelector "'lb ServiceConfig"

text \<open>
  The calls the balancer makes on its collaborators: the channel's control helper, the
  child policy, the resolver and the two resolution callbacks of its owner.
\<close>

datatype ('lb, 'tlb, 'ep, 'at, 'p, 'cs) RlbAction =
    HelperUpdateState ConnectivityState "'p Picker"
  | ChildUpdateAddressList "'ep list" 'tlb 'at
  | ChildExitIdle
  | ChildResetBackoff
  | ChildDestroy
  | OnSuccessfulResolution "'lb ServiceConfig" "('lb, 'cs) ConfigSelector"
  | OnFailedResolution StatusObject
  | ResolverUpdateResolution
  | ResolverDestroy

text \<open>
  \<open>ResolvingLoadBalancer\<close>. \<open>backoffRunning\<close> is \<open>backoffTimeout.isRunning()\<close>
  (\<open>BackoffTimeout\<close> of backoff-timeout.ts is not among the sources: \<open>runOnce\<close> sets
  the flag, the timer runs its callback and then clears the flag, \<open>stop\<close> clears it and
  \<open>reset\<close> leaves it); \<open>actions\<close> lists the calls made so far. The child policy and the
  resolver answer through callbacks, which are separate operations below.
\<close>

record ('lb, 'tlb, 'ep, 'at, 'p, 'cs) ResolvingLoadBalancer =
  latestChildState :: ConnectivityState
  latestChildPicker :: "'p Picker"
  currentState :: ConnectivityState
  defaultServiceConfig :: "'lb ServiceConfig"
  previousServiceConfig :: "'lb ServiceConfig option"
  continueResolving :: bool
  backoffRunning :: bool
  actions :: "('lb, 'tlb, 'ep, 'at, 'p, 'cs) RlbAction list"

definition updateState ::
    "ConnectivityState \<Rightarrow> 'p Picker \<Rightarrow> ('lb, 'tlb, 'ep, 'at, 'p, 'cs) ResolvingLoadBalancer
       \<Rightarrow> ('lb, 'tlb, 'ep, 'at, 'p, 'cs) ResolvingLoadBalancer" where
  "updateState connectivityState picker rlb =
     (let picker' = (if connectivityState = IDLE then QueuePicker (Some picker) else picker)
      in rlb\<lparr>currentState := connectivityState,
              actions := actions rlb @ [HelperUpdateState connectivityState picker']\<rparr>)"

definition handleResolutionFailure ::
    "StatusObject \<Rightarrow> ('lb, 'tlb, 'ep, 'at, 'p, 'cs) ResolvingLoadBalancer
       \<Rightarrow> ('lb, 'tlb, 'ep, 'at, 'p, 'cs) ResolvingLoadBalancer" where
  "handleResolutionFailure error rlb =
     (if latestChildState rlb = IDLE then
        let rlb1 = updateState TRANSIENT_FAILURE (UnavailablePicker error) rlb
        in rlb1\<lparr>actions := actions rlb1 @ [OnFailedResolution error]\<rparr>
      else rlb)"






definition onError ::
    "StatusObject \<Rightarrow> ('lb, 'tlb, 'ep, 'at, 'p, 'cs) ResolvingLoadBalancer
       \<Rightarrow> ('lb, 'tlb, 'ep, 'at, 'p, 'cs) ResolvingLoadBalancer" where
  "onError error rlb = handleResolutionFailure error rlb"

definition updateResolution ::
    "('lb, 'tlb, 'ep, 'at, 'p, 'cs) ResolvingLoadBalancer
       \<Rightarrow> ('lb, 'tlb, 'ep, 'at, 'p, 'cs) ResolvingLoadBalancer" where
  "updateResolution rlb =
     (let rlb1 = rlb\<lparr>actions := actions rlb @ [ResolverUpdateResolution]\<rparr>;
          rlb2 = (if currentState rlb1 = IDLE
                  then updateState CONNECTING (latestChildPicker rlb1) rlb1 else rlb1)
      in rlb2\<lparr>backoffRunning := True\<rparr>)"

text \<open>The three callbacks the child policy and the backoff timer have into the balancer.\<close>

definition childRequestReresolution ::
    "('lb, 'tlb, 'ep, 'at, 'p, 'cs) ResolvingLoadBalancer
       \<Rightarrow> ('lb, 'tlb, 'ep, 'at, 'p, 'cs) ResolvingLoadBalancer" where
  "childRequestReresolution rlb =
     (if backoffRunning rlb then rlb\<lparr>continueResolving := True\<rparr> else updateResolution rlb)"


definition onBackoffTimer ::
    "('lb, 'tlb, 'ep, 'at, 'p, 'cs) ResolvingLoadBalancer
       \<Rightarrow> ('lb, 'tlb, 'ep, 'at, 'p, 'cs) ResolvingLoadBalancer" where
  "onBackoffTimer rlb =
     (let rlb1 = (if continueResolving rlb
                  then (updateResolution rlb)\<lparr>continueResolving := False\<rparr>
                  else updateState (latestChildState rlb) (latestChildPicker rlb) rlb)
      in rlb1\<lparr>backoffRunning := False\<rparr>)"

definition exitIdle ::
    "('lb, 'tlb, 'ep, 'at, 'p, 'cs) ResolvingLoadBalancer
       \<Rightarrow> ('lb, 'tlb, 'ep, 'at, 'p, 'cs) ResolvingLoadBalancer" where
  "exitIdle rlb =
     (let rlb1 = (if currentState rlb = IDLE \<or> currentState rlb = TRANSIENT_FAILURE
                  then (if backoffRunning rlb then rlb\<lparr>continueResolving := True\<rparr>
                        else updateResolution rlb)
                  else rlb)
      in rlb1\<lparr>actions := actions rlb1 @ [ChildExitIdle]\<rparr>)"

definition resetBackoff ::
    "('lb, 'tlb, 'ep, 'at, 'p, 'cs) ResolvingLoadBalancer
       \<Rightarrow> ('lb, 'tlb, 'ep, 'at, 'p, 'cs) ResolvingLoadBalancer" where
  "resetBackoff rlb = rlb\<lparr>actions := actions rlb @ [ChildResetBackoff]\<rparr>"

definition destroy ::
    "('lb, 'tlb, 'ep, 'at, 'p, 'cs) ResolvingLoadBalancer
       \<Rightarrow> ('lb, 'tlb, 'ep, 'at, 'p, 'cs) ResolvingLoadBalancer" where
  "destroy rlb =
     rlb\<lparr>actions := actions rlb @ [ChildDestroy, ResolverDestroy], backoffRunning := False,
         latestChildState := IDLE, latestChildPicker := QueuePicker None, currentState := IDLE,
         previousServiceConfig := None, continueResolving := False\<rparr>"







section \<open>The service-config validator and selector (service-config.ts)\<close>

text \<open>
  Values as \<open>JSON.parse\<close> returns them. An object is an association list; a property
  read is \<open>map_of\<close>, and \<open>undefined\<close> is \<open>None\<close>.
\<close>

datatype json =
    JNull
  | JBool bool
  | JNum rat
  | JStr string
  | JArr "json list"
  | JObj "(string \<times> json) list"

text \<open>
  \<open>key in obj\<close>: own keys of an object; indices and \<open>length\<close> of an array; a
  TypeError on null and on primitives.
\<close>

definition hasKey :: "string \<Rightarrow> json \<Rightarrow> jsError + bool" where
  "hasKey key obj =
     (case obj of
        JObj kvs \<Rightarrow> Inr (map_of kvs key \<noteq> None)
      | JArr xs \<Rightarrow> Inr ((isArrayIndex key \<and> digitsToNat key < length xs) \<or> key = ''length'')
      | _ \<Rightarrow> Inl (TypeError (''Cannot use '' @ squote @ ''in'' @ squote
                              @ '' operator to search for '' @ squote @ key @ squote)))"

text \<open>\<open>obj.key\<close> for the keys the validator reads (none of them is an array property).\<close>

definition getProp :: "string \<Rightarrow> json \<Rightarrow> json option" where
  "getProp key obj = (case obj of JObj kvs \<Rightarrow> map_of kvs key | _ \<Rightarrow> None)"

text \<open>A loop that calls a validator on every element and stops at the first exception.\<close>

fun mapE :: "('a \<Rightarrow> jsError + 'b) \<Rightarrow> 'a list \<Rightarrow> jsError + 'b list" where
  "mapE f [] = Inr []"
| "mapE f (x # xs) =
     (case f x of
        Inl e \<Rightarrow> Inl e
      | Inr y \<Rightarrow> (case mapE f xs of Inl e \<Rightarrow> Inl e | Inr ys \<Rightarrow> Inr (y # ys)))"

text \<open>
  \<open>TIMEOUT_REGEX = /^\d+(\.\d{1,9})?s$/\<close>: digits, optionally a dot and one to nine
  digits, then \<open>s\<close> and the end. Each greedy run of digits must be taken whole, since the
  character after a shorter run is a digit.
\<close>

definition TIMEOUT_REGEX_test :: "string \<Rightarrow> bool" where
  "TIMEOUT_REGEX_test s =
     (let ds = takeWhile isDigit s; rest = dropWhile isDigit s in
      ds \<noteq> []
      \<and> (rest = ''s''
          \<or> (case rest of
                c # r \<Rightarrow>
                  c = CHR ''.''
                  \<and> (let fs = takeWhile isDigit r in
                       1 \<le> length fs \<and> length fs \<le> 9 \<and> dropWhile isDigit r = ''s'')
              | [] \<Rightarrow> False)))"

definition validateName :: "json \<Rightarrow> jsError + MethodConfigName" where
  "validateName obj =
     (case hasKey ''service'' obj of
        Inl e \<Rightarrow> Inl e
      | Inr hasService \<Rightarrow>
          (case (if hasService then getProp ''service'' obj else None) of
             Some (JStr s) \<Rightarrow>
               (case hasKey ''method'' obj of
                  Inl e \<Rightarrow> Inl e
                | Inr hasMethod \<Rightarrow>
                    if hasMethod then
                      (case getProp ''method'' obj of
                         Some (JStr m) \<Rightarrow> Inr \<lparr>service = s, methodName = Some m\<rparr>
                       | _ \<Rightarrow> Inl (Error ''Invalid method config name: invalid method''))
                    else Inr \<lparr>service = s, methodName = None\<rparr>)
           | _ \<Rightarrow> Inl (Error ''Invalid method config name: invalid service'')))"

text \<open>An optional field of a method config: absent, valid, or an exception.\<close>

definition optionalField ::
    "string \<Rightarrow> json \<Rightarrow> (json \<Rightarrow> 'a option) \<Rightarrow> string \<Rightarrow> jsError + 'a option" where
  "optionalField key obj check msg =
     (case hasKey key obj of
        Inl e \<Rightarrow> Inl e
      | Inr present \<Rightarrow>
          if present then
            (case getProp key obj of
               Some v \<Rightarrow> (case check v of Some a \<Rightarrow> Inr (Some a) | None \<Rightarrow> Inl (Error msg))
             | None \<Rightarrow> Inl (Error msg))
          else Inr None)"

definition asBoolean :: "json \<Rightarrow> bool option" where
  "asBoolean v = (case v of JBool b \<Rightarrow> Some b | _ \<Rightarrow> None)"

definition asNumber :: "json \<Rightarrow> rat option" where
  "asNumber v = (case v of JNum n \<Rightarrow> Some n | _ \<Rightarrow> None)"

definition asString :: "json \<Rightarrow> string option" where
  "asString v = (case v of JStr s \<Rightarrow> Some s | _ \<Rightarrow> None)"

definition asTimeout :: "json \<Rightarrow> string option" where
  "asTimeout v = (case v of JStr s \<Rightarrow> if TIMEOUT_REGEX_test s then Some s else None | _ \<Rightarrow> None)"

definition validateMethodConfig :: "json \<Rightarrow> jsError + MethodConfig" where
  "validateMethodConfig obj =
     (case hasKey ''name'' obj of
        Inl e \<Rightarrow> Inl e
      | Inr hasName \<Rightarrow>
          (case (if hasName then getProp ''name'' obj else None) of
             Some (JArr names) \<Rightarrow>
               (case mapE validateName names of
                  Inl e \<Rightarrow> Inl e
                | Inr ns \<Rightarrow>
               (case optionalField ''waitForReady'' obj asBoolean
                       ''Invalid method config: invalid waitForReady'' of
                  Inl e \<Rightarrow> Inl e
                | Inr w \<Rightarrow>
               (case optionalField ''timeout'' obj asTimeout
                       ''Invalid method config: invalid timeout'' of
                  Inl e \<Rightarrow> Inl e
                | Inr t \<Rightarrow>
               (case optionalField ''maxRequestBytes'' obj asNumber
                       ''Invalid method config: invalid maxRequestBytes'' of
                  Inl e \<Rightarrow> Inl e
                | Inr rq \<Rightarrow>
               (case optionalField ''maxResponseBytes'' obj asNumber
                       ''Invalid method config: invalid maxRequestBytes'' of
                  Inl e \<Rightarrow> Inl e
                | Inr rs \<Rightarrow>
                    Inr \<lparr>name = ns, waitForReady = w, timeout = t, maxRequestBytes = rq,
                         maxResponseBytes = rs\<rparr>)))))
           | _ \<Rightarrow> Inl (Error ''Invalid method config: invalid name array'')))"

text \<open>
  The first three blocks of \<open>validateServiceConfig\<close>: the fields of the result.
  \<open>lbconfig.validateConfig\<close> is the parameter \<open>validateConfig\<close>. A \<open>methodConfig\<close> that
  is no array is passed over.
\<close>

definition validateServiceConfigFields ::
    "(json \<Rightarrow> jsError + 'lb) \<Rightarrow> json \<Rightarrow> jsError + 'lb ServiceConfig" where
  "validateServiceConfigFields validateConfig obj =
     (case optionalField ''loadBalancingPolicy'' obj asString
             ''Invalid service config: invalid loadBalancingPolicy'' of
        Inl e \<Rightarrow> Inl e
      | Inr policy \<Rightarrow>
     (case hasKey ''loadBalancingConfig'' obj of
        Inl e \<Rightarrow> Inl e
      | Inr hasLb \<Rightarrow>
     (case (if hasLb then
              (case getProp ''loadBalancingConfig'' obj of
                 Some (JArr configs) \<Rightarrow> mapE validateConfig configs
               | _ \<Rightarrow> Inl (Error ''Invalid service config: invalid loadBalancingConfig''))
            else Inr []) of
        Inl e \<Rightarrow> Inl e
      | Inr lbs \<Rightarrow>
     (case hasKey ''methodConfig'' obj of
        Inl e \<Rightarrow> Inl e
      | Inr hasMc \<Rightarrow>
     (case (if hasMc then
              (case getProp ''methodConfig'' obj of
                 Some (JArr mcs) \<Rightarrow> mapE validateMethodConfig mcs
               | _ \<Rightarrow> Inr [])
            else Inr []) of
        Inl e \<Rightarrow> Inl e
      | Inr mcs \<Rightarrow>
          Inr \<lparr>loadBalancingPolicy = policy, loadBalancingConfig = lbs, methodConfig = mcs\<rparr>)))))"

text \<open>
  The last block: every name of every method config, in order, is compared with the names
  seen before it and then added to them; the first duplicate throws.
\<close>

definition sameName :: "MethodConfigName \<Rightarrow> MethodConfigName \<Rightarrow> bool" where
  "sameName n seenName = (service n = service seenName \<and> methodName n = methodName seenName)"

definition duplicateNameError :: "MethodConfigName \<Rightarrow> jsError" where
  "duplicateNameError n =
     Error (''Invalid service config: duplicate name '' @ service n @ ''/''
            @ (case methodName n of Some m \<Rightarrow> m | None \<Rightarrow> ''undefined''))"

fun checkUniqueNames :: "MethodConfigName list \<Rightarrow> MethodConfigName list \<Rightarrow> jsError option" where
  "checkUniqueNames seenMethodNames [] = None"
| "checkUniqueNames seenMethodNames (n # ns) =
     (if list_ex (sameName n) seenMethodNames then Some (duplicateNameError n)
      else checkUniqueNames (seenMethodNames @ [n]) ns)"

definition validateServiceConfig ::
    "(json \<Rightarrow> jsError + 'lb) \<Rightarrow> json \<Rightarrow> jsError + 'lb ServiceConfig" where
  "validateServiceConfig validateConfig obj =
     (case validateServiceConfigFields validateConfig obj of
        Inl e \<Rightarrow> Inl e
      | Inr result \<Rightarrow>
          (case checkUniqueNames [] (concat (map name (methodConfig result))) of
             Some e \<Rightarrow> Inl e
           | None \<Rightarrow> Inr result))"








text \<open>The two matching loops of the selector.\<close>

definition anyEquals :: "string \<Rightarrow> string list \<Rightarrow> bool" where
  "anyEquals x xs = fold (\<lambda>y matched. if y = x then True else matched) xs False"







definition isError :: "'e + 'a \<Rightarrow> bool" where
  "isError r = (case r of Inl e \<Rightarrow> True | Inr v \<Rightarrow> False)"

subsection \<open>Two concrete service configs\<close>

text \<open>
  In the first, the name \<open>echo.Echoer\<close> without a method occurs in two method configs; in
  the second every name occurs once.
\<close>

definition duplicateConfig :: json where
  "duplicateConfig =
     JObj [(''methodConfig'',
            JArr [JObj [(''name'', JArr [JObj [(''service'', JStr ''echo.Echoer'')]]),
                        (''waitForReady'', JBool True)],
                  JObj [(''name'', JArr [JObj [(''service'', JStr ''echo.Echoer''),
                                               (''method'', JStr ''Say'')],
                                         JObj [(''service'', JStr ''echo.Echoer'')]]),
                        (''timeout'', JStr ''1.5s'')]])]"

definition uniqueConfig :: json where
  "uniqueConfig =
     JObj [(''methodConfig'',
            JArr [JObj [(''name'', JArr [JObj [(''service'', JStr ''echo.Echoer'')],
                                         JObj [(''service'', JStr ''echo.Echoer''),
                                               (''method'', JStr ''Say'')]])]])]"

subsection \<open>A concrete TXT record list\<close>











section \<open>Properties of the metadata container\<close>

subsection \<open>Base64\<close>

lemma unat_byte_less: "unat (a :: byte) < 256"
  using unsigned_less [of a, where 'a = nat] by simp

lemma sextet_split:
  fixes n :: nat
  shows "((n div 262144 * 64 + n div 4096 mod 64) * 64 + n div 64 mod 64) * 64 + n mod 64 = n"
proof -
  have a: "n div 4096 = n div 64 div 64" "n div 262144 = n div 64 div 64 div 64"
    by (simp_all add: div_mult2_eq [symmetric])
  have "n div 64 div 64 div 64 * 64 + n div 64 div 64 mod 64 = n div 64 div 64"
    by (rule div_mult_mod_eq)
  moreover have "n div 64 div 64 * 64 + n div 64 mod 64 = n div 64"
    by (rule div_mult_mod_eq)
  moreover have "n div 64 * 64 + n mod 64 = n"
    by (rule div_mult_mod_eq)
  ultimately show ?thesis
    by (simp add: a)
qed

lemma three_bytes_div:
  fixes a b c :: nat
  assumes "b < 256" "c < 256"
  shows "(a * 65536 + b * 256 + c) div 65536 = a"
    "(a * 65536 + b * 256 + c) div 256 mod 256 = b"
    "(a * 65536 + b * 256 + c) mod 256 = c"
proof -
  have r: "b * 256 + c < 65536" using assms by simp
  have "(a * 65536 + (b * 256 + c)) div 65536 = a"
    using r by simp
  then show "(a * 65536 + b * 256 + c) div 65536 = a" by (simp add: add.assoc)
  have "(a * 65536 + b * 256 + c) div 256 = a * 256 + b"
  proof -
    have "a * 65536 + b * 256 + c = (a * 256 + b) * 256 + c" by simp
    then show ?thesis using assms(2) by simp
  qed
  then show "(a * 65536 + b * 256 + c) div 256 mod 256 = b" using assms(1) by simp
  have e: "a * 65536 + b * 256 + c = c + 256 * (a * 256 + b)" by simp
  show "(a * 65536 + b * 256 + c) mod 256 = c"
    unfolding e using assms(2) by (simp only: mod_mult_self2 mod_less)
qed

lemma three_bytes_bound:
  fixes a b c :: nat
  assumes "a < 256" "b < 256" "c < 256"
  shows "(a * 65536 + b * 256 + c) div 262144 < 64"
proof -
  have "a * 65536 + b * 256 + c < 64 * 262144" using assms by simp
  then show ?thesis by (rule less_mult_imp_div_less)
qed

lemma b64char_not_pad: "i < 64 \<Longrightarrow> b64char i \<noteq> CHR ''=''"
  by (auto simp: b64char_def char_of_eq_iff take_bit_eq_mod)

lemma unbase64_b64char: "i < 64 \<Longrightarrow> unbase64 (b64char i) = Some i"
  by (auto simp: b64char_def unbase64_def Let_def char_of_eq_iff take_bit_eq_mod)

lemma sextets_cons: "i < 64 \<Longrightarrow> sextets (b64char i # cs) = i # sextets cs"
  by (simp add: sextets_def b64char_not_pad unbase64_b64char List.map_filter_simps)

lemma sextets_pad: "sextets (CHR ''='' # cs) = []"
  by (simp add: sextets_def List.map_filter_simps)

lemma sextets_Nil: "sextets [] = []"
  by (simp add: sextets_def List.map_filter_simps)

lemma decode_three:
  fixes a b c :: byte
  defines "n \<equiv> unat a * 65536 + unat b * 256 + unat c"
  shows "decode_groups (n div 262144 # n div 4096 mod 64 # n div 64 mod 64 # n mod 64 # vs)
           = a # b # c # decode_groups vs"
proof -
  have "((n div 262144 * 64 + n div 4096 mod 64) * 64 + n div 64 mod 64) * 64 + n mod 64 = n"
    by (rule sextet_split)
  moreover have "n div 65536 = unat a" "n div 256 mod 256 = unat b" "n mod 256 = unat c"
    unfolding n_def by (rule three_bytes_div; rule unat_byte_less)+
  ultimately show ?thesis by simp
qed

lemma decode_two:
  fixes a b :: byte
  defines "n \<equiv> unat a * 1024 + unat b * 4"
  shows "decode_groups [n div 4096, n div 64 mod 64, n mod 64] = [a, b]"
proof -
  have d: "n div 4096 = n div 64 div 64"
    by (simp add: div_mult2_eq [symmetric])
  have "n div 64 div 64 * 64 + n div 64 mod 64 = n div 64"
    by (rule div_mult_mod_eq)
  moreover have "n div 64 * 64 + n mod 64 = n"
    by (rule div_mult_mod_eq)
  ultimately have m: "(n div 4096 * 64 + n div 64 mod 64) * 64 + n mod 64 = n"
    by (simp add: d)
  have b4: "unat b * 4 < 1024" using unat_byte_less [of b] by simp
  have 1: "n div 1024 = unat a"
    unfolding n_def using b4 by simp
  have "n = (unat a * 256 + unat b) * 4" by (simp add: n_def)
  then have "n div 4 = unat a * 256 + unat b" by simp
  then have 2: "n div 4 mod 256 = unat b" using unat_byte_less [of b] by simp
  show ?thesis using m 1 2 by simp
qed

lemma decode_one:
  fixes a :: byte
  defines "n \<equiv> unat a * 16"
  shows "decode_groups [n div 64, n mod 64] = [a]"
proof -
  have "n div 64 * 64 + n mod 64 = n" by (rule div_mult_mod_eq)
  moreover have "n div 16 = unat a" by (simp add: n_def)
  ultimately show ?thesis by simp
qed

lemma sextet_bounds:
  fixes a b c :: byte
  shows "(unat a * 65536 + unat b * 256 + unat c) div 262144 < 64"
    "(unat a * 1024 + unat b * 4) div 4096 < 64"
    "(unat a * 16) div 64 < 64"
proof -
  show "(unat a * 65536 + unat b * 256 + unat c) div 262144 < 64"
    by (rule three_bytes_bound; rule unat_byte_less)
  have "unat a * 1024 + unat b * 4 < 64 * 4096"
    using unat_byte_less [of a] unat_byte_less [of b] by simp
  then show "(unat a * 1024 + unat b * 4) div 4096 < 64" by (rule less_mult_imp_div_less)
  have "unat a * 16 < 64 * 64" using unat_byte_less [of a] by simp
  then show "(unat a * 16) div 64 < 64" by (rule less_mult_imp_div_less)
qed

lemma mod64_less: "(n :: nat) mod 64 < 64"
  by simp

lemmas sextet_simps =
  base64_encode.simps Let_def sextets_cons sextets_pad sextets_Nil sextet_bounds mod64_less
  decode_three decode_two decode_one

lemma base64_roundtrip: "base64_decode (base64_encode bs) = bs"
proof -
  have "decode_groups (sextets (base64_encode bs)) = bs"
  proof (induction bs rule: base64_encode.induct)
    case (1 a b c bs)
    then show ?case by (simp only: sextet_simps)
  next
    case (2 a b)
    show ?case by (simp only: sextet_simps)
  next
    case (3 a)
    show ?case by (simp only: sextet_simps)
  next
    case 4
    show ?case by (simp only: sextet_simps decode_groups.simps)
  qed
  then show ?thesis by (simp add: base64_decode_def sextets_def)
qed

subsection \<open>Maps and objects as association lists\<close>

lemma update_fresh: "k \<notin> fst ` set al \<Longrightarrow> AList.update k v al = al @ [(k, v)]"
  by (induction al) auto

lemma update_last: "k \<notin> fst ` set al \<Longrightarrow> AList.update k v (al @ [(k, w)]) = al @ [(k, v)]"
  by (induction al) auto

lemma map_of_last: "k \<notin> fst ` set al \<Longrightarrow> map_of (al @ [(k, w)]) k = Some w"
  by (induction al) auto

lemma map_of_fresh: "k \<notin> fst ` set al \<Longrightarrow> map_of al k = None"
  by (simp add: map_of_eq_None_iff)

lemma fold_update_fresh:
  "distinct (map fst m) \<Longrightarrow> fst ` set acc \<inter> fst ` set m = {} \<Longrightarrow>
     fold (\<lambda>(key, values) result. AList.update key (f values) result) m acc
       = acc @ map (\<lambda>(key, values). (key, f values)) m"
proof (induction m arbitrary: acc)
  case Nil
  then show ?case by simp
next
  case (Cons e m)
  obtain k vs where e: "e = (k, vs)" by (cases e)
  have k: "k \<notin> fst ` set acc" using Cons.prems(2) e by auto
  have d: "distinct (map fst m)" using Cons.prems(1) by simp
  have i: "fst ` set (acc @ [(k, f vs)]) \<inter> fst ` set m = {}"
    using Cons.prems e by auto
  show ?case
    using Cons.IH [OF d i] by (simp add: e update_fresh [OF k])
qed

lemma fold_Object_set_plain:
  "''__proto__'' \<notin> fst ` set m \<Longrightarrow>
     fold (\<lambda>(key, values) result. Object_set key (f values) result) m acc
       = fold (\<lambda>(key, values) result. AList.update key (f values) result) m acc"
  by (induction m arbitrary: acc) (auto simp: Object_set_def)

lemma toHttp2Headers_distinct:
  "distinct (map fst m) \<Longrightarrow> ''__proto__'' \<notin> fst ` set m \<Longrightarrow>
     toHttp2Headers m = map (\<lambda>(key, values). (key, HArr (map encodeValue values))) m"
  using fold_update_fresh [of m "[]" "\<lambda>values. HArr (map encodeValue values)"]
  by (simp add: toHttp2Headers_def fold_Object_set_plain)

lemma Object_keys_set: "set (Object_keys obj) = fst ` set obj"
  by (auto simp: Object_keys_def)

lemma Object_keys_distinct: "distinct (map fst obj) \<Longrightarrow> distinct (Object_keys obj)"
  by (auto simp: Object_keys_def distinct_filter)

lemma Object_keys_cong: "map fst a = map fst b \<Longrightarrow> Object_keys a = Object_keys b"
  by (simp add: Object_keys_def)

lemma Object_keys_plain:
  "\<forall>k \<in> fst ` set obj. \<not> isArrayIndex k \<Longrightarrow> Object_keys obj = map fst obj"
proof -
  assume a: "\<forall>k \<in> fst ` set obj. \<not> isArrayIndex k"
  then have "filter isArrayIndex (map fst obj) = []"
    by (auto simp: filter_empty_conv)
  moreover have "filter (\<lambda>k. \<not> isArrayIndex k) (map fst obj) = map fst obj"
    using a by (auto simp: filter_id_conv)
  ultimately show ?thesis by (simp add: Object_keys_def)
qed

subsection \<open>Legal keys and values\<close>

lemma toLowerChar_legal: "isLegalKeyChar c \<Longrightarrow> toLowerChar c = c"
  by (auto simp: isLegalKeyChar_def toLowerChar_def isDigit_def Let_def)

lemma normalizeKey_legal: "isLegalKey key \<Longrightarrow> normalizeKey key = key"
  by (simp add: isLegalKey_def normalizeKey_def toLowerCase_def toLowerChar_legal
      list_all_iff map_idI)

lemma legal_key_not_reserved: "isLegalKey key \<Longrightarrow> take 1 key \<noteq> '':''"
  by (cases key) (auto simp: isLegalKey_def isLegalKeyChar_def isDigit_def)

lemma validate_legal: "isLegalKey key \<Longrightarrow> legalValue key v \<Longrightarrow> validate key (Some v) = None"
  by (auto simp: validate_def legalValue_def split: MetadataValue.splits)

lemma Metadata_add_legal:
  "isLegalKey key \<Longrightarrow> legalValue key v \<Longrightarrow>
     Metadata_add key v m
       = Inr (case map_of m key of
                None \<Rightarrow> AList.update key [v] m
              | Some existingValue \<Rightarrow> AList.update key (existingValue @ [v]) m)"
  by (simp add: Metadata_add_def normalizeKey_legal validate_legal split: option.splits)

lemma addAll_append:
  "isLegalKey key \<Longrightarrow> list_all (legalValue key) vs \<Longrightarrow> key \<notin> fst ` set result \<Longrightarrow>
     addAll key vs (result @ [(key, pre)]) = result @ [(key, pre @ vs)]"
proof (induction vs arbitrary: pre)
  case Nil
  then show ?case by simp
next
  case (Cons v vs)
  have mo: "map_of (result @ [(key, pre)]) key = Some pre"
    using Cons.prems(3) by (rule map_of_last)
  have up: "AList.update key (pre @ [v]) (result @ [(key, pre)]) = result @ [(key, pre @ [v])]"
    using Cons.prems(3) by (rule update_last)
  have "Metadata_add key v (result @ [(key, pre)]) = Inr (result @ [(key, pre @ [v])])"
    using Cons.prems(1,2) by (simp add: Metadata_add_legal mo up del: map_of_append)
  then show ?case
    using Cons.IH [of "pre @ [v]"] Cons.prems by simp
qed

lemma addAll_fresh:
  "isLegalKey key \<Longrightarrow> list_all (legalValue key) vs \<Longrightarrow> vs \<noteq> [] \<Longrightarrow>
     key \<notin> fst ` set result \<Longrightarrow> addAll key vs result = result @ [(key, vs)]"
proof (cases vs)
  case Nil
  assume "vs \<noteq> []"
  then show ?thesis using Nil by simp
next
  case (Cons v ws)
  assume a: "isLegalKey key" "list_all (legalValue key) vs" "key \<notin> fst ` set result"
  have "Metadata_add key v result = Inr (result @ [(key, [v])])"
    using a Cons by (simp add: Metadata_add_legal map_of_fresh update_fresh)
  then show ?thesis
    using addAll_append [of key ws result "[v]"] a Cons by simp
qed

lemma decode_encoded_binary:
  "isBinaryKey key \<Longrightarrow> list_all (legalValue key) vs \<Longrightarrow>
     map (\<lambda>value. Buf (base64_decode value)) (map encodeValue vs) = vs"
  by (induction vs)
     (auto simp: legalValue_def encodeValue_def base64_roundtrip split: MetadataValue.splits)

lemma decode_encoded_text:
  "\<not> isBinaryKey key \<Longrightarrow> list_all (legalValue key) vs \<Longrightarrow>
     map Str (map encodeValue vs) = vs"
  by (induction vs) (auto simp: legalValue_def encodeValue_def split: MetadataValue.splits)

lemma fromHeaderEntry_encoded:
  assumes "legalEntry (key, vs)" "key \<notin> fst ` set result"
  shows "fromHeaderEntry key (Some (HArr (map encodeValue vs))) result = result @ [(key, vs)]"
proof -
  have k: "isLegalKey key" and ne: "vs \<noteq> []" and lv: "list_all (legalValue key) vs"
    using assms(1) by (simp_all add: legalEntry_def)
  have nr: "take 1 key \<noteq> '':''"
    using k by (rule legal_key_not_reserved)
  have fresh: "addAll key vs result = result @ [(key, vs)]"
    using k lv ne assms(2) by (rule addAll_fresh)
  show ?thesis
  proof (cases "isBinaryKey key")
    case True
    have "fromHeaderEntry key (Some (HArr (map encodeValue vs))) result
            = addAll key (map (\<lambda>value. Buf (base64_decode value)) (map encodeValue vs)) result"
      using nr True by (simp add: fromHeaderEntry_def del: map_map)
    also have "\<dots> = addAll key vs result"
      by (simp only: decode_encoded_binary [OF True lv])
    finally show ?thesis using fresh by simp
  next
    case False
    have "fromHeaderEntry key (Some (HArr (map encodeValue vs))) result
            = addAll key (map Str (map encodeValue vs)) result"
      using nr False by (simp add: fromHeaderEntry_def del: map_map)
    also have "\<dots> = addAll key vs result"
      by (simp only: decode_encoded_text [OF False lv])
    finally show ?thesis using fresh by simp
  qed
qed

subsection \<open>Decoding what was encoded\<close>

lemma legalMetadata_entry:
  "legalMetadata m \<Longrightarrow> map_of m k = Some vs \<Longrightarrow> legalEntry (k, vs)"
  by (auto simp: legalMetadata_def list_all_iff dest: map_of_SomeD)

lemma map_of_toHttp2Headers:
  "legalMetadata m \<Longrightarrow> ''__proto__'' \<notin> fst ` set m \<Longrightarrow>
     map_of (toHttp2Headers m) k
       = map_option (\<lambda>values. HArr (map encodeValue values)) (map_of m k)"
  by (simp add: legalMetadata_def toHttp2Headers_distinct map_of_map)

lemma fold_fromHeaderEntry:
  assumes "legalMetadata m" and "''__proto__'' \<notin> fst ` set m"
  shows "distinct ks \<Longrightarrow> set ks \<subseteq> fst ` set m \<Longrightarrow> set ks \<inter> fst ` set result = {} \<Longrightarrow>
     fold (\<lambda>key r. fromHeaderEntry key (map_of (toHttp2Headers m) key) r) ks result
       = result @ map (\<lambda>k. (k, the (map_of m k))) ks"
proof (induction ks arbitrary: result)
  case Nil
  then show ?case by simp
next
  case (Cons k ks)
  from Cons.prems(2) have "k \<in> fst ` set m" by simp
  then obtain vs where vs: "map_of m k = Some vs"
    by (metis domD dom_map_of_conv_image_fst)
  have le: "legalEntry (k, vs)" using assms(1) vs by (rule legalMetadata_entry)
  have fresh: "k \<notin> fst ` set result" using Cons.prems(3) by auto
  have h: "map_of (toHttp2Headers m) k = Some (HArr (map encodeValue vs))"
    using assms vs by (simp add: map_of_toHttp2Headers)
  have step: "fromHeaderEntry k (map_of (toHttp2Headers m) k) result = result @ [(k, vs)]"
    unfolding h using le fresh by (rule fromHeaderEntry_encoded)
  have d: "distinct ks" and sub: "set ks \<subseteq> fst ` set m" and k: "k \<notin> set ks"
    using Cons.prems by simp_all
  have dis: "set ks \<inter> fst ` set (result @ [(k, vs)]) = {}"
    using Cons.prems(3) k by auto
  show ?case
    using Cons.IH [OF d sub dis] by (simp add: step vs)
qed

lemma fromHttp2Headers_toHttp2Headers:
  assumes "legalMetadata m" and "''__proto__'' \<notin> fst ` set m"
  shows "fromHttp2Headers (toHttp2Headers m) = map (\<lambda>k. (k, the (map_of m k))) (Object_keys m)"
proof -
  have d: "distinct (map fst m)" using assms by (simp add: legalMetadata_def)
  have keys: "map fst (toHttp2Headers m) = map fst m"
    by (simp add: toHttp2Headers_distinct [OF d assms(2)] case_prod_unfold comp_def)
  have ok: "Object_keys (toHttp2Headers m) = Object_keys m"
    using keys by (rule Object_keys_cong)
  have "fold (\<lambda>key r. fromHeaderEntry key (map_of (toHttp2Headers m) key) r) (Object_keys m) []
          = [] @ map (\<lambda>k. (k, the (map_of m k))) (Object_keys m)"
    using assms
  proof (rule fold_fromHeaderEntry)
    show "distinct (Object_keys m)" using d by (rule Object_keys_distinct)
    show "set (Object_keys m) \<subseteq> fst ` set m" by (simp add: Object_keys_set)
    show "set (Object_keys m) \<inter> fst ` set [] = {}" by simp
  qed
  then show ?thesis by (simp add: fromHttp2Headers_def ok)
qed

lemma map_of_reordered:
  "distinct (map fst m) \<Longrightarrow> set ks = fst ` set m \<Longrightarrow>
     map_of (map (\<lambda>k. (k, the (map_of m k))) ks) = map_of m"
proof
  fix k
  assume d: "distinct (map fst m)" and s: "set ks = fst ` set m"
  show "map_of (map (\<lambda>k. (k, the (map_of m k))) ks) k = map_of m k"
  proof (cases "k \<in> set ks")
    case True
    then have "map_of (map (\<lambda>k. (k, the (map_of m k))) ks) k = Some (the (map_of m k))"
      by (induction ks) auto
    moreover have "map_of m k \<noteq> None"
      using True s by (simp add: map_of_eq_None_iff)
    ultimately show ?thesis by auto
  next
    case False
    then have "map_of (map (\<lambda>k. (k, the (map_of m k))) ks) k = None"
      by (simp add: map_of_eq_None_iff image_image)
    moreover have "map_of m k = None"
      using False s by (simp add: map_of_eq_None_iff)
    ultimately show ?thesis by simp
  qed
qed

lemma reordered_plain:
  assumes "distinct (map fst m)"
  shows "map (\<lambda>k. (k, the (map_of m k))) (map fst m) = m"
proof -
  have "(fst e, the (map_of m (fst e))) = e" if "e \<in> set m" for e
  proof -
    have "map_of m (fst e) = Some (snd e)"
      using assms that by (simp add: map_of_eq_Some_iff)
    then show ?thesis by simp
  qed
  then have "map (\<lambda>e. (fst e, the (map_of m (fst e)))) m = m"
    by (rule map_idI)
  then show ?thesis by (simp add: comp_def)
qed

lemma legalMetadata_reordered:
  assumes "legalMetadata m" "distinct ks" "set ks = fst ` set m"
  shows "legalMetadata (map (\<lambda>k. (k, the (map_of m k))) ks)"
proof -
  have "legalEntry (k, the (map_of m k))" if "k \<in> set ks" for k
  proof -
    from that assms(3) obtain vs where "map_of m k = Some vs"
      by (metis domD dom_map_of_conv_image_fst)
    then show ?thesis using legalMetadata_entry [OF assms(1)] by simp
  qed
  then show ?thesis
    using assms(2) by (simp add: legalMetadata_def list_all_iff comp_def)
qed

text \<open>
  For every legal metadata object \<open>m\<close> without the key \<open>__proto__\<close>, decoding the headers
  that encode \<open>m\<close> gives a legal object with the same keys and, for every key, the same
  list of values as \<open>m\<close> (equal as maps). The entries come in the order of
  \<open>Object.keys\<close>; when no key of \<open>m\<close> is an array index, the result is \<open>m\<close> itself, entry
  by entry.
\<close>

lemma metadata_roundtrip:
  "legalMetadata m \<Longrightarrow> ''__proto__'' \<notin> fst ` set m \<Longrightarrow>
     map_of (fromHttp2Headers (toHttp2Headers m)) = map_of m
     \<and> legalMetadata (fromHttp2Headers (toHttp2Headers m))
     \<and> ((\<forall>k \<in> fst ` set m. \<not> isArrayIndex k) \<longrightarrow> fromHttp2Headers (toHttp2Headers m) = m)"
proof -
  assume l: "legalMetadata m" and p: "''__proto__'' \<notin> fst ` set m"
  have d: "distinct (map fst m)" using l by (simp add: legalMetadata_def)
  have r: "fromHttp2Headers (toHttp2Headers m)
             = map (\<lambda>k. (k, the (map_of m k))) (Object_keys m)"
    using l p by (rule fromHttp2Headers_toHttp2Headers)
  have 1: "map_of (fromHttp2Headers (toHttp2Headers m)) = map_of m"
    unfolding r using d by (rule map_of_reordered) (rule Object_keys_set)
  have 2: "legalMetadata (fromHttp2Headers (toHttp2Headers m))"
    unfolding r using l Object_keys_distinct [OF d] Object_keys_set
    by (rule legalMetadata_reordered)
  have 3: "fromHttp2Headers (toHttp2Headers m) = m" if "\<forall>k \<in> fst ` set m. \<not> isArrayIndex k"
    unfolding r using Object_keys_plain [OF that] reordered_plain [OF d] by simp
  show ?thesis using 1 2 3 by blast
qed

subsection \<open>The public operations keep a metadata object legal\<close>

lemma legalMetadata_empty: "legalMetadata []"
  by (simp add: legalMetadata_def)

lemma list_all_update:
  "list_all P al \<Longrightarrow> P (k, v) \<Longrightarrow> list_all P (AList.update k v al)"
  by (induction al) auto

lemma validate_Some_None:
  "validate key (Some v) = None \<Longrightarrow> isLegalKey key \<and> legalValue key v"
  by (auto simp: validate_def legalValue_def split: if_splits MetadataValue.splits)

lemma legalMetadata_update:
  "legalMetadata m \<Longrightarrow> legalEntry (k, vs) \<Longrightarrow> legalMetadata (AList.update k vs m)"
  by (simp add: legalMetadata_def distinct_update list_all_update)

lemma legalMetadata_set:
  "legalMetadata m \<Longrightarrow> Metadata_set key v m = Inr m' \<Longrightarrow> legalMetadata m'"
  by (auto simp: Metadata_set_def Let_def legalEntry_def split: option.splits
      dest!: validate_Some_None intro!: legalMetadata_update)

lemma legalMetadata_add:
  "legalMetadata m \<Longrightarrow> Metadata_add key v m = Inr m' \<Longrightarrow> legalMetadata m'"
proof -
  assume l: "legalMetadata m" and a: "Metadata_add key v m = Inr m'"
  let ?k = "normalizeKey key"
  from a have val: "validate ?k (Some v) = None"
    by (auto simp: Metadata_add_def Let_def split: option.splits)
  then have k: "isLegalKey ?k" and lv: "legalValue ?k v"
    by (auto dest: validate_Some_None)
  show ?thesis
  proof (cases "map_of m ?k")
    case None
    then have "m' = AList.update ?k [v] m"
      using a val by (simp add: Metadata_add_def Let_def)
    then show ?thesis using l k lv by (simp add: legalMetadata_update legalEntry_def)
  next
    case (Some ex)
    then have m': "m' = AList.update ?k (ex @ [v]) m"
      using a val by (simp add: Metadata_add_def Let_def)
    have "legalEntry (?k, ex)" using l Some by (rule legalMetadata_entry)
    then have "legalEntry (?k, ex @ [v])" using lv by (simp add: legalEntry_def)
    then show ?thesis using l m' by (simp add: legalMetadata_update)
  qed
qed

lemma legalMetadata_remove:
  "legalMetadata m \<Longrightarrow> Metadata_remove key m = Inr m' \<Longrightarrow> legalMetadata m'"
proof -
  assume l: "legalMetadata m" and r: "Metadata_remove key m = Inr m'"
  have m': "m' = AList.delete (normalizeKey key) m"
    using r by (auto simp: Metadata_remove_def Let_def split: option.splits)
  have "distinct (map fst m')"
    unfolding m' using l by (simp add: legalMetadata_def distinct_delete)
  moreover have "set m' \<subseteq> set m"
    unfolding m' by (auto simp: AList.delete_eq)
  ultimately show ?thesis
    using l by (auto simp: legalMetadata_def list_all_iff)
qed

subsection \<open>Two concrete metadata objects\<close>

lemmas legal_eval_defs =
  legalMetadata_def legalEntry_def legalValue_def isLegalKey_def isLegalKeyChar_def isDigit_def
  isBinaryKey_def endsWith_def isLegalNonBinaryValue_def

lemma exampleMetadata_legal: "legalMetadata exampleMetadata"
  by (simp add: exampleMetadata_def legal_eval_defs)

lemma exampleMetadataPlain_legal: "legalMetadata exampleMetadataPlain"
  by (simp add: exampleMetadataPlain_def legal_eval_defs)

lemma exampleMetadataPlain_keys: "\<forall>k \<in> fst ` set exampleMetadataPlain. \<not> isArrayIndex k"
  by (simp add: exampleMetadataPlain_def isArrayIndex_def isDigit_def)

lemma exampleMetadata_no_proto: "''__proto__'' \<notin> fst ` set exampleMetadata"
  by (simp add: exampleMetadata_def)

lemma exampleMetadataPlain_no_proto: "''__proto__'' \<notin> fst ` set exampleMetadataPlain"
  by (simp add: exampleMetadataPlain_def)

lemma exampleMetadata_headers:
  "toHttp2Headers exampleMetadata
     = [(''b'', HArr [''x y'']), (''1'', HArr [''y'', ''z'']), (''k-bin'', HArr [''AQL/'', []])]"
  by (simp add: exampleMetadata_def toHttp2Headers_def Object_set_def encodeValue_def b64char_def
      Let_def char_of_eq_iff)

lemma metadata_roundtrip_examples:
  "legalMetadata exampleMetadata
   \<and> map_of (fromHttp2Headers (toHttp2Headers exampleMetadata)) = map_of exampleMetadata
   \<and> legalMetadata exampleMetadataPlain
   \<and> fromHttp2Headers (toHttp2Headers exampleMetadataPlain) = exampleMetadataPlain"
  using metadata_roundtrip [OF exampleMetadata_legal exampleMetadata_no_proto]
    metadata_roundtrip [OF exampleMetadataPlain_legal exampleMetadataPlain_no_proto]
    exampleMetadata_legal exampleMetadataPlain_legal exampleMetadataPlain_keys
  by blast

subsection \<open>The key \<open>__proto__\<close>\<close>

lemma fold_Object_set_delete:
  "fold (\<lambda>(key, values) result. Object_set key (f values) result) m acc
     = fold (\<lambda>(key, values) result. Object_set key (f values) result)
         (AList.delete ''__proto__'' m) acc"
  by (induction m arbitrary: acc) (auto simp: Object_set_def)

lemma toHttp2Headers_delete_proto:
  "toHttp2Headers m = toHttp2Headers (AList.delete ''__proto__'' m)"
  unfolding toHttp2Headers_def by (rule fold_Object_set_delete)

lemma legalMetadata_delete: "legalMetadata m \<Longrightarrow> legalMetadata (AList.delete k m)"
proof -
  assume l: "legalMetadata m"
  have "distinct (map fst (AList.delete k m))"
    using l by (simp add: legalMetadata_def distinct_delete)
  moreover have "set (AList.delete k m) \<subseteq> set m"
    by (auto simp: AList.delete_eq)
  ultimately show ?thesis
    using l by (auto simp: legalMetadata_def list_all_iff)
qed

lemma protoMetadata_legal: "legalMetadata protoMetadata"
  by (simp add: protoMetadata_def legal_eval_defs)

lemma protoMetadata_set: "Metadata_set ''__proto__'' (Str ''x'') [] = Inr protoMetadata"
  by (simp add: protoMetadata_def Metadata_set_def normalizeKey_def toLowerCase_def
      toLowerChar_def validate_def legal_eval_defs Let_def)

lemma protoMetadata_headers: "toHttp2Headers protoMetadata = []"
  by (simp add: protoMetadata_def toHttp2Headers_def Object_set_def)

text \<open>
  C2. The round trip through the header form keeps the key-to-values mapping of a legal
  metadata object except for the legal key \<open>__proto__\<close>: the assignment
  \<open>result[key] = ...\<close> of \<open>toHttp2Headers\<close> creates no property for it, so for every legal
  \<open>m\<close> the decoded object is legal and maps every other key to the values it has in \<open>m\<close>
  and \<open>__proto__\<close> to nothing. A metadata object that has this key does not come back.
\<close>

theorem metadata_roundtrip_drops_proto_key:
  "legalMetadata m \<Longrightarrow>
     map_of (fromHttp2Headers (toHttp2Headers m)) = (map_of m)(''__proto__'' := None)
     \<and> legalMetadata (fromHttp2Headers (toHttp2Headers m))"
proof -
  assume l: "legalMetadata m"
  let ?m = "AList.delete ''__proto__'' m"
  have l': "legalMetadata ?m" using l by (rule legalMetadata_delete)
  have p: "''__proto__'' \<notin> fst ` set ?m" by (rule delete_notin_dom)
  have h: "toHttp2Headers m = toHttp2Headers ?m" by (rule toHttp2Headers_delete_proto)
  have "map_of (fromHttp2Headers (toHttp2Headers ?m)) = map_of ?m"
    and "legalMetadata (fromHttp2Headers (toHttp2Headers ?m))"
    using metadata_roundtrip [OF l' p] by simp_all
  then show ?thesis by (simp add: h AList.delete_conv')
qed

theorem metadata_roundtrip_drops_proto_key_witness:
  "legalMetadata protoMetadata
   \<and> Metadata_set ''__proto__'' (Str ''x'') [] = Inr protoMetadata
   \<and> toHttp2Headers protoMetadata = []
   \<and> fromHttp2Headers (toHttp2Headers protoMetadata) = []
   \<and> map_of (fromHttp2Headers (toHttp2Headers protoMetadata)) ''__proto__'' = None
   \<and> map_of protoMetadata ''__proto__'' = Some [Str ''x'']"
  using metadata_roundtrip_drops_proto_key [OF protoMetadata_legal]
    protoMetadata_legal protoMetadata_set protoMetadata_headers
  by (simp add: protoMetadata_def fromHttp2Headers_def Object_keys_def)

section \<open>Properties of the server-side call\<close>

lemma status_sendMetadata [simp]: "status (sendMetadata m call) = status call"
  by (simp add: sendMetadata_def Let_def)

lemma status_server_end [simp]: "status (server_end p call) = status call"
  by (simp add: server_end_def Let_def)

lemma status_metadata_sendError:
  "status_metadata (status (sendError e c call)) =
     (case error_metadata e of Some md \<Rightarrow> Some md | None \<Rightarrow> status_metadata (status call))"
  by (simp add: sendError_def Let_def split: option.splits)

lemma handleExpiredDeadline_cancelled: "cancelled (handleExpiredDeadline call)"
  by (simp add: handleExpiredDeadline_def)

lemma onStreamClose_cancelled:
  "rstCode (stream call) = NGHTTP2_CANCEL \<Longrightarrow> cancelled (onStreamClose call)"
  by (simp add: onStreamClose_def)

text \<open>
  C9. Once the \<open>cancelled\<close> flag of a server call is true, \<open>write\<close> and \<open>end\<close> return
  the call as it is: no headers, no DATA and no end of stream reach the HTTP/2 stream, and
  the same holds for every sequence of writes and ends that follows. The flag is set by
  the \<open>close\<close> listener on an RST_STREAM with CANCEL (\<open>onStreamClose_cancelled\<close>) and by
  the deadline timer (\<open>handleExpiredDeadline_cancelled\<close>).
\<close>

theorem cancelled_write_end_noop:
  "cancelled call \<Longrightarrow>
     server_write chunk call = call \<and> server_end payload call = call
     \<and> fold applyCallOp ops call = call"
proof -
  assume c: "cancelled call"
  have w: "server_write chunk call = call" for chunk
    using c by (simp add: server_write_def)
  have e: "server_end payload call = call" for payload
    using c by (simp add: server_end_def)
  have "fold applyCallOp ops call = call"
  proof (induction ops)
    case Nil
    show ?case by simp
  next
    case (Cons op ops)
    have "applyCallOp op call = call"
      by (cases op) (simp_all add: w e)
    then show ?case
      using Cons by simp
  qed
  then show ?thesis
    using w e by simp
qed

theorem cancelled_write_end_noop_witness:
  "cancelled (handleExpiredDeadline (newHttp2ServerCallStream newStream (Some echoHandler)))
   \<and> server_write [1, 2] (handleExpiredDeadline (newHttp2ServerCallStream newStream (Some echoHandler)))
       = handleExpiredDeadline (newHttp2ServerCallStream newStream (Some echoHandler))
   \<and> server_end None (handleExpiredDeadline (newHttp2ServerCallStream newStream (Some echoHandler)))
       = handleExpiredDeadline (newHttp2ServerCallStream newStream (Some echoHandler))
   \<and> fold applyCallOp [OpWrite [3], OpEnd (Some [4])]
         (handleExpiredDeadline (newHttp2ServerCallStream newStream (Some echoHandler)))
       = handleExpiredDeadline (newHttp2ServerCallStream newStream (Some echoHandler))"
  using cancelled_write_end_noop
    [OF handleExpiredDeadline_cancelled,
     of "[1, 2]" "newHttp2ServerCallStream newStream (Some echoHandler)" None
        "[OpWrite [3], OpEnd (Some [4])]"]
    handleExpiredDeadline_cancelled [of "newHttp2ServerCallStream newStream (Some echoHandler)"]
  by simp

text \<open>
  C10 (as amended). When \<open>sendUnaryMessage\<close> gets an error and a trailer argument, the
  argument is assigned to the error's \<open>metadata\<close> before \<open>sendError\<close> runs, so the
  status carries the argument, whatever metadata the error had. When the error is null and
  the response serializes, the argument is assigned to the status before the call ends.
\<close>

theorem sendUnaryMessage_trailer_metadata:
  "sendUnaryMessage (Some e) value (Some md) call
     = sendError (e\<lparr>error_metadata := Some md\<rparr>) Status_UNKNOWN call
   \<and> status_metadata (status (sendUnaryMessage (Some e) value (Some md) call)) = Some md
   \<and> (serializeMessage value call = Inr response \<longrightarrow>
        sendUnaryMessage None value (Some md) call
          = server_end (Some response)
              (call\<lparr>status := (status call)\<lparr>status_metadata := Some md\<rparr>\<rparr>)
        \<and> status_metadata (status (sendUnaryMessage None value (Some md) call)) = Some md)"
  by (simp add: sendUnaryMessage_def status_metadata_sendError)

theorem sendUnaryMessage_trailer_metadata_witness:
  "serializeMessage [7] (newHttp2ServerCallStream newStream (Some echoHandler))
     = Inr [0, 0, 0, 0, 1, 7]
   \<and> status_metadata (status (sendUnaryMessage
         (Some \<lparr>error_message = Some ''no'', error_code = Some 5, error_details = None,
                error_metadata = Some [(''old'', [Str ''a''])]\<rparr>)
         [7] (Some [(''new'', [Str ''b''])])
         (newHttp2ServerCallStream newStream (Some echoHandler)))) = Some [(''new'', [Str ''b''])]
   \<and> status_metadata (status (sendUnaryMessage None
         [7] (Some [(''new'', [Str ''b''])])
         (newHttp2ServerCallStream newStream (Some echoHandler)))) = Some [(''new'', [Str ''b''])]"
proof -
  have s: "serializeMessage [7] (newHttp2ServerCallStream newStream (Some echoHandler))
             = Inr [0, 0, 0, 0, 1, 7]"
    by (simp add: serializeMessage_def newHttp2ServerCallStream_def echoHandler_def
        frameMessage_def)
  show ?thesis
    using s sendUnaryMessage_trailer_metadata
      [of "\<lparr>error_message = Some ''no'', error_code = Some 5, error_details = None,
                error_metadata = Some [(''old'', [Str ''a''])]\<rparr>"
          "[7]" "[(''new'', [Str ''b''])]" "newHttp2ServerCallStream newStream (Some echoHandler)"
          "[0, 0, 0, 0, 1, 7]"]
    by blast
qed

text \<open>
  The claim as stated fails where the serializer throws: the \<open>catch\<close> sends the exception
  with INTERNAL, the assignment of the trailer argument is never reached, and the status
  keeps no metadata.
\<close>

theorem sendUnaryMessage_serialize_failure_counterexample:
  "status_metadata (status (sendUnaryMessage None () (Some [(''new'', [Str ''b''])])
      (newHttp2ServerCallStream newStream (Some failingHandler)))) = None
   \<and> status_code (status (sendUnaryMessage None () (Some [(''new'', [Str ''b''])])
      (newHttp2ServerCallStream newStream (Some failingHandler)))) = Status_INTERNAL"
  by (simp add: sendUnaryMessage_def serializeMessage_def failingHandler_def
      newHttp2ServerCallStream_def sendError_def newError_def Let_def)

section \<open>Properties of the stream dispatcher\<close>

lemmas call_eval_defs =
  onStream_def tryDispatch_def newServer_def newStream_def newHttp2ServerCallStream_def
  sendError_def server_end_def sendMetadata_def onWantTrailers_def trailersToSend_def
  initialUnimplementedStatusResponse_def initialResponseHeaders_def newError_def

lemma Object_assign_Nil [simp]: "Object_assign t [] = t"
  by (simp add: Object_assign_def Object_keys_def)

lemma encodeURI_unimplemented:
  "encodeURI ''The server does not implement this method''
     = ''The%20server%20does%20not%20implement%20this%20method''"
  by (simp add: encodeURI_def uriUnescaped_def percentByte_def hexDigit_def Let_def
      char_of_eq_iff)

text \<open>
  C1. A started server with no handler for \<open>/unknown.Svc/M\<close> receives a stream for that
  path. The listener throws \<open>unimplementedStatusResponse\<close>, whose code is UNIMPLEMENTED;
  the \<open>catch\<close> then assigns INTERNAL to the code of whatever was thrown and sends it. The
  call ends with code 13 and the details of the unimplemented response, the trailers carry
  \<open>grpc-status: 13\<close>, and the shared object keeps code 13 afterwards.
\<close>

theorem onStream_unknown_path_sends_internal:
  "(case onStream ((newServer :: (unit, unit) Server)\<lparr>started := True\<rparr>) newStream
           [('':path'', HStr ''/unknown.Svc/M'')] of
      (srv', Failed first call) \<Rightarrow>
        first = None
        \<and> status_code (status call) = 13
        \<and> status_details (status call) = ''The server does not implement this method''
        \<and> emitted (stream (onWantTrailers call))
            = [Respond initialResponseHeaders, End None,
               SendTrailers
                 [(''grpc-status'', HNum 13),
                  (''grpc-message'',
                   HStr ''The%20server%20does%20not%20implement%20this%20method'')]]
        \<and> error_code (unimplementedStatusResponse srv') = Some 13
    | _ \<Rightarrow> False)"
  by (simp add: call_eval_defs Let_def Status_defs encodeURI_unimplemented)

section \<open>Properties of the grpc-timeout parser\<close>

lemma bitLength_numeral [simp]:
  "bitLength (numeral (Num.Bit0 n)) = Suc (bitLength (numeral n))"
  "bitLength (numeral (Num.Bit1 n)) = Suc (bitLength (numeral n))"
  "bitLength (Suc 0) = Suc 0" "bitLength 0 = 0" "bitLength 1 = Suc 0"
  by (simp_all add: numeral_Bit0_div_2 numeral_Bit1_div_2)

lemmas metadata_eval_defs =
  fromHttp2Headers_def Object_keys_def isArrayIndex_def isDigit_def fromHeaderEntry_def
  isBinaryKey_def endsWith_def trim_def isSpace_def Metadata_add_def Metadata_get_def
  Metadata_remove_def normalizeKey_def toLowerCase_def toLowerChar_def validate_def
  isLegalKey_def isLegalKeyChar_def isLegalNonBinaryValue_def

lemma DEADLINE_REGEX_match_nine_digits:
  "DEADLINE_REGEX_match ''123456789S'' = Some (''23456789'', CHR ''S'')"
  by (simp add: matchDeadlineWith_def isDigit_def isSpace_def isDeadlineUnit_def
      eval_nat_numeral Let_def)

lemma deadlineTimeout_nine_digits: "deadlineTimeout (''23456789'', CHR ''S'') = 1981952520"
  by (simp add: deadlineTimeout_def deadlineUnitsToMs_def digitsToNat_def mulDouble_def
      truncDouble_def toInt32_def Let_def del: bitLength.simps)

lemma fromHttp2Headers_nine_digits:
  "fromHttp2Headers [(''grpc-timeout'', HStr ''123456789S'')]
     = [(''grpc-timeout'', [Str ''123456789S''])]"
  by (simp add: metadata_eval_defs Let_def)

text \<open>
  A value of the shape \<open>^(\d{1,8})\s*([HMSmun])$\<close> is matched as a whole, with its digits
  and its unit letter as the groups, and arms the timer; a value that the unanchored pattern
  matches nowhere ends the call with OUT_OF_RANGE.
\<close>

lemma matchDeadlineWith_long:
  assumes "length (takeWhile isDigit s) < d"
  shows "matchDeadlineWith d s = None"
proof (cases "d \<le> length s")
  case False
  then show ?thesis by (simp add: matchDeadlineWith_def)
next
  case True
  let ?n = "length (takeWhile isDigit s)"
  have lt: "?n < length s" using assms True by simp
  then have "\<not> isDigit (s ! ?n)" by (rule nth_length_takeWhile)
  moreover have "s ! ?n \<in> set (take d s)"
    using assms lt by (auto simp: in_set_conv_nth intro!: exI [of _ ?n])
  ultimately have "\<not> list_all isDigit (take d s)" by (auto simp: list_all_iff)
  then show ?thesis by (simp add: matchDeadlineWith_def)
qed

lemma spec_deadline_shape_unit:
  assumes "spec_deadline_shape s"
  shows "dropWhile isSpace (drop (length (takeWhile isDigit s)) s) = [last s]
         \<and> isDeadlineUnit (last s)"
proof -
  let ?n = "length (takeWhile isDigit s)"
  from assms obtain u where u: "dropWhile isSpace (drop ?n s) = [u]" and d: "isDeadlineUnit u"
    by (auto simp: spec_deadline_shape_def Let_def split: list.splits)
  have "drop ?n s = takeWhile isSpace (drop ?n s) @ [u]"
    using takeWhile_dropWhile_id [of isSpace "drop ?n s"] u by simp
  then have "s = take ?n s @ takeWhile isSpace (drop ?n s) @ [u]"
    using append_take_drop_id [of ?n s] by simp
  then have "last s = u" by (metis append_assoc last_snoc)
  then show ?thesis using u d by simp
qed

lemma matchDeadlineWith_exact:
  assumes "spec_deadline_shape s"
  shows "matchDeadlineWith (length (takeWhile isDigit s)) s = Some (takeWhile isDigit s, last s)"
proof -
  let ?n = "length (takeWhile isDigit s)"
  have t: "take ?n s = takeWhile isDigit s" by (simp add: takeWhile_eq_take [symmetric])
  have a: "list_all isDigit (take ?n s)"
    unfolding t by (auto simp: list_all_iff dest: set_takeWhileD)
  have l: "?n \<le> length s" by (rule length_takeWhile_le)
  show ?thesis
    using spec_deadline_shape_unit [OF assms] a l t by (simp add: matchDeadlineWith_def)
qed

lemma matchDeadlineAt_shape:
  "spec_deadline_shape s \<Longrightarrow> length (takeWhile isDigit s) \<le> n \<Longrightarrow>
     matchDeadlineAt n s = Some (takeWhile isDigit s, last s)"
proof (induction n)
  case 0
  then show ?case by (simp add: spec_deadline_shape_def Let_def)
next
  case (Suc n)
  show ?case
  proof (cases "length (takeWhile isDigit s) = Suc n")
    case True
    then show ?thesis using matchDeadlineWith_exact [OF Suc.prems(1)] by simp
  next
    case False
    then have lt: "length (takeWhile isDigit s) < Suc n" using Suc.prems(2) by simp
    then show ?thesis
      using Suc.IH [OF Suc.prems(1)] matchDeadlineWith_long [OF lt] by simp
  qed
qed

lemma DEADLINE_REGEX_match_shape:
  assumes "spec_deadline_shape s"
  shows "DEADLINE_REGEX_match s = Some (takeWhile isDigit s, last s)"
proof (cases s)
  case Nil
  then show ?thesis using assms by (simp add: spec_deadline_shape_def)
next
  case (Cons c cs)
  have "length (takeWhile isDigit s) \<le> 8"
    using assms by (simp add: spec_deadline_shape_def Let_def)
  then have "matchDeadlineAt 8 s = Some (takeWhile isDigit s, last s)"
    using assms by (simp add: matchDeadlineAt_shape del: matchDeadlineAt.simps)
  then show ?thesis unfolding Cons by (simp del: matchDeadlineAt.simps)
qed


lemma receiveMetadata_shape:
  assumes "Metadata_get ''grpc-timeout'' (fromHttp2Headers headers) = Inr (v # vs)"
    and "spec_deadline_shape (valueToString v)"
    and "Metadata_remove ''grpc-timeout'' (fromHttp2Headers headers) = Inr rest"
  shows "receiveMetadata headers call
           = Inr (Some rest,
                  call\<lparr>deadline := Some (deadlineTimeout (takeWhile isDigit (valueToString v),
                                                         last (valueToString v)))\<rparr>)"
  using assms(1,3) DEADLINE_REGEX_match_shape [OF assms(2)]
  by (simp add: receiveMetadata_def del: DEADLINE_REGEX_match.simps)

lemma receiveMetadata_no_match:
  assumes "Metadata_get ''grpc-timeout'' (fromHttp2Headers headers) = Inr (v # vs)"
    and "DEADLINE_REGEX_match (valueToString v) = None"
  shows "receiveMetadata headers call
           = Inr (None, sendError (newError ''Invalid deadline'') Status_OUT_OF_RANGE call)"
    and "status_code (status (sendError (newError ''Invalid deadline'') Status_OUT_OF_RANGE call))
           = Status_OUT_OF_RANGE"
  using assms
  by (simp_all add: receiveMetadata_def sendError_def newError_def Let_def status_server_end
      del: DEADLINE_REGEX_match.simps)

lemma receiveMetadata_soon:
  "receiveMetadata [(''grpc-timeout'', HStr ''soon'')]
       (newHttp2ServerCallStream newStream (None :: (unit, unit) Handler option))
     = Inr (None, sendError (newError ''Invalid deadline'') Status_OUT_OF_RANGE
                    (newHttp2ServerCallStream newStream None))"
proof (rule receiveMetadata_no_match(1))
  show "Metadata_get ''grpc-timeout'' (fromHttp2Headers [(''grpc-timeout'', HStr ''soon'')])
          = Inr [Str ''soon'']"
    by (simp add: metadata_eval_defs Let_def)
  show "DEADLINE_REGEX_match (valueToString (Str ''soon'')) = None"
    by (simp add: valueToString_def matchDeadlineWith_def isDigit_def eval_nat_numeral)
qed

text \<open>
  C4. The header \<open>grpc-timeout: 123456789S\<close> has nine digits and does not have the shape
  \<open>^(\d{1,8})\s*([HMSmun])$\<close>. The unanchored pattern of the code matches it from its
  second character: \<open>receiveMetadata\<close> sends no error, removes the header and arms the
  timer with \<open>(23456789 * 1000) | 0 = 1981952520\<close>.
\<close>

theorem receiveMetadata_unanchored_deadline:
  "\<not> spec_deadline_shape ''123456789S''
   \<and> receiveMetadata [(''grpc-timeout'', HStr ''123456789S'')]
         (newHttp2ServerCallStream newStream (None :: (unit, unit) Handler option))
       = Inr (Some [], (newHttp2ServerCallStream newStream None)\<lparr>deadline := Some 1981952520\<rparr>)"
proof -
  have "\<not> spec_deadline_shape ''123456789S''"
    by (simp add: spec_deadline_shape_def isDigit_def Let_def)
  moreover have "Metadata_get ''grpc-timeout'' [(''grpc-timeout'', [Str ''123456789S''])]
                   = Inr [Str ''123456789S'']"
    by (simp add: metadata_eval_defs Let_def)
  moreover have "Metadata_remove ''grpc-timeout'' [(''grpc-timeout'', [Str ''123456789S''])]
                   = Inr []"
    by (simp add: metadata_eval_defs Let_def)
  ultimately show ?thesis
    by (simp add: receiveMetadata_def fromHttp2Headers_nine_digits valueToString_def
        DEADLINE_REGEX_match_nine_digits deadlineTimeout_nine_digits
        del: DEADLINE_REGEX_match.simps)
qed

subsection \<open>Two call objects on one stream\<close>

lemma encodeURI_invalid_deadline: "encodeURI ''Invalid deadline'' = ''Invalid%20deadline''"
  by (simp add: encodeURI_def uriUnescaped_def percentByte_def hexDigit_def Let_def
      char_of_eq_iff)

lemma DEADLINE_REGEX_match_soon: "DEADLINE_REGEX_match ''soon'' = None"
  by (simp add: matchDeadlineWith_def isDigit_def eval_nat_numeral)

text \<open>
  A request for a client-streaming method with an invalid deadline: \<open>receiveMetadata\<close>
  ends the call object of the \<open>try\<close> block with OUT_OF_RANGE and registers its trailers
  listener, the dispatcher then throws "not implemented yet", and the object of the
  \<open>catch\<close> block finds the headers sent. The trailers are those of the first object.
\<close>

lemma onStream_two_call_objects:
  "(case onStream ((snd (register ''/svc/M'' clientStreamHandler newServer))\<lparr>started := True\<rparr>)
           newStream [('':path'', HStr ''/svc/M''), (''grpc-timeout'', HStr ''soon'')] of
      (srv', Failed (Some first) second) \<Rightarrow>
        status_code (status first) = Status_OUT_OF_RANGE
        \<and> status_code (status second) = Status_INTERNAL
        \<and> wantTrailersListener first \<and> \<not> wantTrailersListener second
        \<and> emitted (onWantTrailersFailed (Some first) second)
            = [Respond initialResponseHeaders, End None, End None,
               SendTrailers
                 [(''grpc-status'', HNum 11), (''grpc-message'', HStr ''Invalid%20deadline'')]]
    | _ \<Rightarrow> False)"
proof -
  have m: "fromHttp2Headers [('':path'', HStr ''/svc/M''), (''grpc-timeout'', HStr ''soon'')]
             = [(''grpc-timeout'', [Str ''soon''])]"
    by (simp add: metadata_eval_defs Let_def)
  have g: "Metadata_get ''grpc-timeout'' [(''grpc-timeout'', [Str ''soon''])] = Inr [Str ''soon'']"
    by (simp add: metadata_eval_defs Let_def)
  show ?thesis
    by (simp add: call_eval_defs register_def clientStreamHandler_def receiveMetadata_def m g
        valueToString_def DEADLINE_REGEX_match_soon onWantTrailersFailed_def Let_def Status_defs
        encodeURI_invalid_deadline del: DEADLINE_REGEX_match.simps)
qed

section \<open>Properties of the client-side call\<close>

lemma noMessageAfterStatus_append:
  "noMessageAfterStatus (xs @ [e]) =
     (noMessageAfterStatus xs \<and> (isMessageEvent e \<longrightarrow> statusCount xs = 0))"
  by (induction xs) (auto simp: statusCount_def)

lemma statusCount_append [simp]:
  "statusCount (xs @ [e]) = statusCount xs + (if isStatusEvent e then 1 else 0)"
  by (simp add: statusCount_def)

lemma callEnded_updates [simp]:
  "callEnded (s\<lparr>streamOps := a\<rparr>) = callEnded s"
  "callEnded (s\<lparr>canPush := b\<rparr>) = callEnded s"
  "callEnded (s\<lparr>isReadFilterPending := b\<rparr>) = callEnded s"
  "callEnded (s\<lparr>unpushedReadMessages := u\<rparr>) = callEnded s"
  "callEnded (s\<lparr>unfilteredReadMessages := u\<rparr>) = callEnded s"
  "callEnded (s\<lparr>mappedStatusCode := c\<rparr>) = callEnded s"
  "callEnded (s\<lparr>streamDestroyed := b\<rparr>) = callEnded s"
  "callEnded (s\<lparr>pendingRead := b\<rparr>) = callEnded s"
  "callEnded (s\<lparr>pendingWrite := w\<rparr>) = callEnded s"
  "callEnded (s\<lparr>writesClosed := b\<rparr>) = callEnded s"
  "callEnded (s\<lparr>http2Stream := b\<rparr>) = callEnded s"
  "callEnded (s\<lparr>subchannel := b\<rparr>) = callEnded s"
  "callEnded (s\<lparr>callRefs := r\<rparr>) = callEnded s"
  "callEnded (s\<lparr>disconnectListenerAdded := b\<rparr>) = callEnded s"
  "callEnded (s\<lparr>delivered := d\<rparr>) = callEnded s"
  "callEnded (s\<lparr>pendingStatusTicks := n\<rparr>) = callEnded s"
  "callEnded (s\<lparr>statusOutput := b\<rparr>) = callEnded s"
  by (simp_all add: callEnded_def split: option.splits)

lemma callEnded_outputStatus [simp]: "callEnded (outputStatus s) = callEnded s"
  by (simp add: outputStatus_def Let_def)

lemma inv_outputStatus: "callInv s \<Longrightarrow> callEnded s \<Longrightarrow> callInv (outputStatus s)"
  by (auto simp: callInv_def outputStatus_def Let_def)

lemma outputStatus_statusOutput [simp]: "statusOutput (outputStatus s)"
  by (simp add: outputStatus_def Let_def)

lemma finalStatus_outputStatus [simp]: "finalStatus (outputStatus s) = finalStatus s"
  by (simp add: outputStatus_def Let_def)

lemma delivered_outputStatus [simp]: "delivered (outputStatus s) = delivered s"
  by (simp add: outputStatus_def Let_def)

lemma inv_onTick: "callInv s \<Longrightarrow> callInv (onTick s)"
  by (auto simp: callInv_def onTick_def noMessageAfterStatus_append split: if_splits)

lemma inv_endCall: "callInv s \<Longrightarrow> callInv (endCall st s)"
proof -
  assume i: "callInv s"
  show ?thesis
  proof (cases "case finalStatus s of None \<Rightarrow> True | Some f \<Rightarrow> code f = Status_OK")
    case False
    then show ?thesis using i by (simp add: endCall_def)
  next
    case True
    let ?s1 = "s\<lparr>finalStatus := Some st\<rparr>"
    have e1: "callEnded ?s1 = (readsClosed s \<or> code st \<noteq> Status_OK)"
      by (simp add: callEnded_def)
    have o: "statusOutput s \<longrightarrow> readsClosed s"
      using i True by (auto simp: callInv_def callEnded_def split: option.splits)
    show ?thesis
    proof (cases "readsClosed s \<or> code st \<noteq> Status_OK")
      case False
      then have "callInv ?s1" using i o e1 by (simp add: callInv_def)
      then show ?thesis using True False by (simp add: endCall_def Let_def)
    next
      case out: True
      have "callInv (outputStatus ?s1)"
        using i o e1 out by (auto simp: callInv_def outputStatus_def Let_def callEnded_def)
      then show ?thesis using True out by (simp add: endCall_def Let_def)
    qed
  qed
qed

lemma inv_pushNull: "callInv s \<Longrightarrow> callInv (pushNull s)"
proof (cases "finalStatus s")
  case None
  assume i: "callInv s"
  have "callEnded (s\<lparr>readsClosed := True\<rparr>) = callEnded s"
    using None by (simp add: callEnded_def)
  then have "callInv (s\<lparr>readsClosed := True\<rparr>)" using i by (simp add: callInv_def)
  then show ?thesis using None by (simp add: pushNull_def Let_def)
next
  case (Some f)
  assume i: "callInv s"
  let ?s1 = "s\<lparr>readsClosed := True\<rparr>"
  have e: "callEnded ?s1" using Some by (simp add: callEnded_def)
  have o: "statusOutput s \<Longrightarrow> callEnded s" using i by (simp add: callInv_def)
  have "callInv (outputStatus ?s1)"
    using i e by (auto simp: callInv_def outputStatus_def Let_def)
  then show ?thesis using Some by (simp add: pushNull_def Let_def)
qed

lemma inv_delivered_message:
  "callInv s \<Longrightarrow> finalStatus s = None \<Longrightarrow>
     callInv (s\<lparr>delivered := delivered s @ [OnReceiveMessage m]\<rparr>)"
proof -
  assume i: "callInv s" and f: "finalStatus s = None"
  have "\<not> callEnded s" using f by (simp add: callEnded_def)
  then have "statusCount (delivered s) = 0" using i by (auto simp: callInv_def)
  then show ?thesis using i by (simp add: callInv_def noMessageAfterStatus_append)
qed

lemma inv_pushMessage: "callInv s \<Longrightarrow> finalStatus s = None \<Longrightarrow> callInv (pushMessage m s)"
proof -
  assume i: "callInv s" and f: "finalStatus s = None"
  let ?s1 = "s\<lparr>delivered := delivered s @ [OnReceiveMessage m]\<rparr>"
  have i1: "callInv ?s1" using i f by (rule inv_delivered_message)
  have "callInv (pushNull (?s1\<lparr>unpushedReadMessages := rest\<rparr>))" for rest
    using i1 by (intro inv_pushNull) (simp add: callInv_def)
  then show ?thesis
    using i1 by (simp add: pushMessage_def Let_def split: list.splits option.splits)
qed

lemma inv_push: "callInv s \<Longrightarrow> finalStatus s = None \<Longrightarrow> callInv (push m s)"
  by (cases m) (simp_all add: push_def inv_pushNull inv_pushMessage)

lemma inv_field_updates [simp]:
  "callInv (s\<lparr>streamOps := a\<rparr>) = callInv s"
  "callInv (s\<lparr>canPush := b\<rparr>) = callInv s"
  "callInv (s\<lparr>isReadFilterPending := b\<rparr>) = callInv s"
  "callInv (s\<lparr>unpushedReadMessages := u\<rparr>) = callInv s"
  "callInv (s\<lparr>unfilteredReadMessages := u\<rparr>) = callInv s"
  "callInv (s\<lparr>mappedStatusCode := c\<rparr>) = callInv s"
  "callInv (s\<lparr>streamDestroyed := b\<rparr>) = callInv s"
  "callInv (s\<lparr>pendingRead := b\<rparr>) = callInv s"
  "callInv (s\<lparr>pendingWrite := w\<rparr>) = callInv s"
  "callInv (s\<lparr>writesClosed := b\<rparr>) = callInv s"
  "callInv (s\<lparr>http2Stream := b\<rparr>) = callInv s"
  "callInv (s\<lparr>subchannel := b\<rparr>) = callInv s"
  "callInv (s\<lparr>callRefs := r\<rparr>) = callInv s"
  "callInv (s\<lparr>disconnectListenerAdded := b\<rparr>) = callInv s"
  by (simp_all add: callInv_def)

lemma inv_destroyHttp2Stream [simp]: "callInv (destroyHttp2Stream s) = callInv s"
  by (simp add: destroyHttp2Stream_def)

lemma inv_cancelWithStatus: "callInv s \<Longrightarrow> callInv (cancelWithStatus st dt s)"
  by (simp add: cancelWithStatus_def inv_endCall)

lemma inv_filterReceivedMessage: "callInv s \<Longrightarrow> callInv (filterReceivedMessage m s)"
  by (auto simp: filterReceivedMessage_def inv_pushNull split: option.splits)

lemma finalStatus_pushMessage: "finalStatus (pushMessage m s) = finalStatus s"
  by (simp add: pushMessage_def pushNull_def Let_def split: list.splits option.splits)

lemma inv_handleFilteredRead: "callInv s \<Longrightarrow> callInv (handleFilteredRead m s)"
  by (auto simp: handleFilteredRead_def Let_def inv_pushNull inv_pushMessage
      inv_filterReceivedMessage split: list.splits)

lemma inv_tryPush: "callInv s \<Longrightarrow> callInv (tryPush m s)"
  by (simp add: tryPush_def inv_filterReceivedMessage)

lemma inv_onData: "callInv s \<Longrightarrow> callInv (onData ms s)"
  unfolding onData_def by (induction ms arbitrary: s) (simp_all add: inv_tryPush)

lemma inv_handleTrailers: "callInv s \<Longrightarrow> callInv (handleTrailers fs h s)"
  by (simp add: handleTrailers_def Let_def inv_endCall split: sum.splits)

lemma inv_delivered_metadata:
  "callInv s \<Longrightarrow> callInv (s\<lparr>delivered := delivered s @ [OnReceiveMetadata md]\<rparr>)"
  by (auto simp: callInv_def noMessageAfterStatus_append)

lemma inv_onResponse: "callInv s \<Longrightarrow> callInv (onResponse fs h e s)"
proof -
  assume i: "callInv s"
  let ?s1 = "s\<lparr>mappedStatusCode := mapHttpStatus (map_of h '':status'')\<rparr>"
  have i1: "callInv ?s1" using i by simp
  have "callInv (?s1\<lparr>delivered := delivered ?s1 @ [OnReceiveMetadata md]\<rparr>)" for md
    using i1 by (rule inv_delivered_metadata)
  then show ?thesis
    using i1 by (simp add: onResponse_def Let_def inv_handleTrailers inv_endCall split: sum.splits)
qed

lemma inv_startRead: "callInv s \<Longrightarrow> callInv (startRead s)"
  by (auto simp: startRead_def Let_def inv_pushNull inv_push split: list.splits)

lemma inv_attach: "callInv s \<Longrightarrow> callInv (attachHttp2Stream s)"
  by (auto simp: attachHttp2Stream_def Let_def split: option.splits)

lemma inv_callStep: "callInv s \<Longrightarrow> callInv (callStep fs e s)"
  by (cases e)
     (simp_all add: inv_attach inv_onResponse inv_handleTrailers inv_onData onEnd_def inv_tryPush
        onClose_def inv_endCall inv_handleFilteredRead handleFilterError_def inv_cancelWithStatus
        onWriteFiltered_def inv_startRead halfClose_def Let_def disconnectListener_def inv_onTick)

lemma inv_new: "callInv newHttp2CallStream"
  by (simp add: callInv_def callEnded_def newHttp2CallStream_def statusCount_def)

lemma inv_callRun: "callInv s \<Longrightarrow> callInv (callRun fs evs s)"
  unfolding callRun_def by (induction evs arbitrary: s) (simp_all add: inv_callStep)

subsection \<open>statusOutput is never reset\<close>

lemma so_endCall: "statusOutput s \<Longrightarrow> statusOutput (endCall st s)"
  by (simp add: endCall_def Let_def outputStatus_def)

lemma so_pushNull: "statusOutput s \<Longrightarrow> statusOutput (pushNull s)"
  by (simp add: pushNull_def Let_def outputStatus_def)

lemma so_pushMessage: "statusOutput s \<Longrightarrow> statusOutput (pushMessage m s)"
  by (simp add: pushMessage_def Let_def so_pushNull split: list.splits option.splits)

lemma so_push: "statusOutput s \<Longrightarrow> statusOutput (push m s)"
  by (cases m) (simp_all add: push_def so_pushNull so_pushMessage)

lemma so_destroy [simp]: "statusOutput (destroyHttp2Stream s) = statusOutput s"
  by (simp add: destroyHttp2Stream_def)

lemma so_cancel: "statusOutput s \<Longrightarrow> statusOutput (cancelWithStatus st dt s)"
  by (simp add: cancelWithStatus_def so_endCall)

lemma so_filterReceivedMessage: "statusOutput s \<Longrightarrow> statusOutput (filterReceivedMessage m s)"
  by (simp add: filterReceivedMessage_def so_pushNull split: option.splits)

lemma so_handleFilteredRead: "statusOutput s \<Longrightarrow> statusOutput (handleFilteredRead m s)"
  by (simp add: handleFilteredRead_def Let_def so_pushNull so_pushMessage
      so_filterReceivedMessage split: list.splits)

lemma so_tryPush: "statusOutput s \<Longrightarrow> statusOutput (tryPush m s)"
  by (simp add: tryPush_def so_filterReceivedMessage)

lemma so_onData: "statusOutput s \<Longrightarrow> statusOutput (onData ms s)"
  unfolding onData_def by (induction ms arbitrary: s) (simp_all add: so_tryPush)

lemma so_handleTrailers: "statusOutput s \<Longrightarrow> statusOutput (handleTrailers fs h s)"
  by (simp add: handleTrailers_def Let_def so_endCall split: sum.splits)

lemma so_onResponse: "statusOutput s \<Longrightarrow> statusOutput (onResponse fs h e s)"
  by (simp add: onResponse_def Let_def so_handleTrailers so_endCall split: sum.splits)

lemma so_startRead: "statusOutput s \<Longrightarrow> statusOutput (startRead s)"
  by (simp add: startRead_def Let_def so_pushNull so_push split: list.splits)

lemma so_attach: "statusOutput s \<Longrightarrow> statusOutput (attachHttp2Stream s)"
  by (simp add: attachHttp2Stream_def Let_def split: option.splits)

lemma so_callStep: "statusOutput s \<Longrightarrow> statusOutput (callStep fs e s)"
  by (cases e)
     (simp_all add: so_attach so_onResponse so_handleTrailers so_onData onEnd_def so_tryPush
        onClose_def so_endCall so_handleFilteredRead handleFilterError_def so_cancel
        onWriteFiltered_def so_startRead halfClose_def Let_def disconnectListener_def onTick_def)

lemma so_callRun: "statusOutput s \<Longrightarrow> statusOutput (callRun fs evs s)"
  unfolding callRun_def by (induction evs arbitrary: s) (simp_all add: so_callStep)

subsection \<open>The events that end a call\<close>

lemma callEnded_endCall_not_ok:
  "callInv s \<Longrightarrow> code st \<noteq> Status_OK \<Longrightarrow> callEnded (endCall st s)"
  by (auto simp: endCall_def Let_def callInv_def callEnded_def split: option.splits)

lemma rstStatus_not_ok: "code (rstStatus rst) \<noteq> Status_OK" "code (rstStatus rst) \<noteq> 0"
  by (simp_all add: rstStatus_def Status_defs)

lemma callEnded_destroy [simp]: "callEnded (destroyHttp2Stream s) = callEnded s"
  by (simp add: destroyHttp2Stream_def)

lemma endsCall_callEnded:
  "callInv s \<Longrightarrow> endsCall e s \<Longrightarrow> callEnded (callStep fs e s)"
  by (cases e)
     (simp_all add: cancelWithStatus_def handleFilterError_def onClose_def disconnectListener_def
        callEnded_endCall_not_ok rstStatus_not_ok Status_defs)

lemma readsClosed_outputStatus [simp]: "readsClosed (outputStatus s) = readsClosed s"
  by (simp add: outputStatus_def Let_def)

lemma callEnded_pushNull: "finalStatus s \<noteq> None \<Longrightarrow> callEnded (pushNull s)"
  by (auto simp: pushNull_def Let_def callEnded_def)

lemma callEnded_tryPush:
  "finalStatus s \<noteq> None \<Longrightarrow> \<not> isReadFilterPending s \<Longrightarrow> callEnded (tryPush m s)"
  by (simp add: tryPush_def filterReceivedMessage_def callEnded_pushNull)

lemma callEnded_callStep: "callInv s \<Longrightarrow> callEnded s \<Longrightarrow> callEnded (callStep fs e s)"
  using so_callStep [of s fs e] inv_callStep [of s fs e] by (simp add: callInv_def)

lemma callEnded_callRun: "callInv s \<Longrightarrow> callEnded s \<Longrightarrow> callEnded (callRun fs evs s)"
  using so_callRun [of s fs evs] inv_callRun [of s fs evs] by (simp add: callInv_def)

lemma callEnded_onData:
  "callInv s \<Longrightarrow> finalStatus s \<noteq> None \<Longrightarrow> \<not> isReadFilterPending s \<Longrightarrow> ms \<noteq> [] \<Longrightarrow>
     callEnded (onData ms s)"
proof -
  assume i: "callInv s" and f: "finalStatus s \<noteq> None" and p: "\<not> isReadFilterPending s"
    and ne: "ms \<noteq> []"
  obtain m rest where ms: "ms = m # rest" using ne by (cases ms) auto
  let ?t = "tryPush (Some m) s"
  have e: "callEnded ?t" using f p by (rule callEnded_tryPush)
  have it: "callInv ?t" using i by (rule inv_tryPush)
  have "callEnded (onData rest ?t)"
    using so_onData [of ?t rest] inv_onData [OF it, of rest] it e by (simp add: callInv_def)
  then show ?thesis by (simp add: ms onData_def)
qed

lemma closesReads_callEnded:
  "callInv s \<Longrightarrow> finalStatus s \<noteq> None \<Longrightarrow> closesReads e s \<Longrightarrow> callEnded (callStep fs e s)"
  by (cases e)
     (simp_all add: startRead_def onEnd_def handleFilteredRead_def callEnded_pushNull
        callEnded_tryPush callEnded_onData)

lemma onTick_count: "callInv s \<Longrightarrow> callEnded s \<Longrightarrow> statusCount (delivered (onTick s)) = 1"
  by (auto simp: callInv_def onTick_def)

lemma ended_exactly_once:
  assumes "callInv s" "callEnded s"
  shows "statusCount (delivered (callRun fs (evs @ [EvTick]) s)) = 1"
proof -
  let ?t = "callRun fs evs s"
  have "callInv ?t" using assms(1) by (simp add: inv_callRun)
  moreover have "callEnded ?t" using assms by (rule callEnded_callRun)
  ultimately have "statusCount (delivered (onTick ?t)) = 1" by (rule onTick_count)
  then show ?thesis by (simp add: callRun_def)
qed

lemma not_ended_no_status: "callInv s \<Longrightarrow> \<not> callEnded s \<Longrightarrow> statusCount (delivered s) = 0"
  by (auto simp: callInv_def split: if_splits)

subsection \<open>After the status has been delivered\<close>

lemma statusEmitted_iff: "callInv s \<Longrightarrow> 0 < statusCount (delivered s) \<Longrightarrow> statusEmitted s"
proof -
  assume i: "callInv s" and p: "0 < statusCount (delivered s)"
  have o: "statusOutput s" using i p by (auto simp: callInv_def split: if_splits)
  then have "callEnded s" using i by (simp add: callInv_def)
  then have f: "finalStatus s \<noteq> None" by (auto simp: callEnded_def split: option.splits)
  have n: "statusCount (delivered s) \<le> 1" "statusCount (delivered s) + pendingStatusTicks s = 1"
    using i o by (auto simp: callInv_def)
  show ?thesis using f o n p by (simp add: statusEmitted_def)
qed

lemma sameDelivered_refl: "statusEmitted s \<Longrightarrow> sameDelivered s s"
  by (simp add: sameDelivered_def)

lemma sameDelivered_trans: "sameDelivered s t \<Longrightarrow> sameDelivered t u \<Longrightarrow> sameDelivered s u"
  by (simp add: sameDelivered_def)

lemma em_outputStatus: "statusEmitted s \<Longrightarrow> outputStatus s = s"
  by (simp add: statusEmitted_def outputStatus_def)

lemma em_endCall: "statusEmitted s \<Longrightarrow> sameDelivered s (endCall st s)"
  by (auto simp: statusEmitted_def sameDelivered_def endCall_def Let_def outputStatus_def split: option.splits)

lemma em_pushNull: "statusEmitted s \<Longrightarrow> sameDelivered s (pushNull s)"
  by (auto simp: statusEmitted_def sameDelivered_def pushNull_def Let_def outputStatus_def)

lemma em_upd [simp]:
  "statusEmitted (s\<lparr>streamOps := a\<rparr>) = statusEmitted s"
  "statusEmitted (s\<lparr>unfilteredReadMessages := u\<rparr>) = statusEmitted s"
  "statusEmitted (s\<lparr>mappedStatusCode := c\<rparr>) = statusEmitted s"
  "statusEmitted (s\<lparr>streamDestroyed := b\<rparr>) = statusEmitted s"
  "statusEmitted (s\<lparr>pendingWrite := w\<rparr>) = statusEmitted s"
  "statusEmitted (s\<lparr>writesClosed := b\<rparr>) = statusEmitted s"
  by (simp_all add: statusEmitted_def)

lemma em_destroy: "statusEmitted s \<Longrightarrow> sameDelivered s (destroyHttp2Stream s)"
  by (simp add: destroyHttp2Stream_def sameDelivered_def)

lemma sameDelivered_statusEmitted: "sameDelivered s t \<Longrightarrow> statusEmitted t"
  by (simp add: sameDelivered_def)

lemma em_cancel: "statusEmitted s \<Longrightarrow> sameDelivered s (cancelWithStatus st dt s)"
  unfolding cancelWithStatus_def
  by (blast intro: sameDelivered_trans em_destroy em_endCall sameDelivered_statusEmitted)

lemma em_final: "statusEmitted s \<Longrightarrow> finalStatus s \<noteq> None"
  by (simp add: statusEmitted_def)

lemma em_filterReceivedMessage: "statusEmitted s \<Longrightarrow> sameDelivered s (filterReceivedMessage m s)"
  using em_final [of s] by (simp add: filterReceivedMessage_def em_pushNull)

lemma em_handleFilteredRead: "statusEmitted s \<Longrightarrow> sameDelivered s (handleFilteredRead m s)"
  using em_final [of s] by (simp add: handleFilteredRead_def em_pushNull)

lemma em_tryPush: "statusEmitted s \<Longrightarrow> sameDelivered s (tryPush m s)"
  by (simp add: tryPush_def em_filterReceivedMessage) (simp add: sameDelivered_def)

lemma em_onData: "statusEmitted s \<Longrightarrow> sameDelivered s (onData ms s)"
proof (induction ms arbitrary: s)
  case Nil
  then show ?case by (simp add: onData_def sameDelivered_def)
next
  case (Cons m ms)
  have a: "sameDelivered s (tryPush (Some m) s)" using Cons.prems by (rule em_tryPush)
  have "sameDelivered (tryPush (Some m) s) (onData ms (tryPush (Some m) s))"
    using a by (intro Cons.IH sameDelivered_statusEmitted)
  then show ?case using a by (auto simp: onData_def intro: sameDelivered_trans)
qed

lemma em_handleTrailers: "statusEmitted s \<Longrightarrow> sameDelivered s (handleTrailers fs h s)"
  by (simp add: handleTrailers_def Let_def em_endCall split: sum.splits)

lemma em_startRead: "statusEmitted s \<Longrightarrow> sameDelivered s (startRead s)"
  using em_final [of s] by (simp add: startRead_def em_pushNull)

lemma em_attach: "statusEmitted s \<Longrightarrow> sameDelivered s (attachHttp2Stream s)"
  using em_final [of s] by (simp add: attachHttp2Stream_def sameDelivered_def)

lemma em_onTick: "statusEmitted s \<Longrightarrow> sameDelivered s (onTick s)"
  by (simp add: onTick_def sameDelivered_def statusEmitted_def)

lemma em_onResponse_end: "statusEmitted s \<Longrightarrow> sameDelivered s (onResponse fs h True s)"
  unfolding onResponse_def Let_def
  using em_handleTrailers [of "s\<lparr>mappedStatusCode := mapHttpStatus (map_of h '':status'')\<rparr>" fs h]
  by (simp add: sameDelivered_def)

lemma em_onResponse:
  "statusEmitted s \<Longrightarrow>
     statusEmitted (onResponse fs h e s)
     \<and> (\<exists>mds. delivered (onResponse fs h e s) = delivered s @ map OnReceiveMetadata mds)"
proof (cases e)
  case True
  assume "statusEmitted s"
  then show ?thesis using em_onResponse_end [of s fs h] True by (simp add: sameDelivered_def)
next
  case False
  assume em: "statusEmitted s"
  let ?s1 = "s\<lparr>mappedStatusCode := mapHttpStatus (map_of h '':status'')\<rparr>"
  show ?thesis
  proof (cases "receiveMetadataFilter fs (fromHttp2Headers h)")
    case (Inr md)
    have "delivered (onResponse fs h e s) = delivered s @ map OnReceiveMetadata [md]"
      using Inr False by (simp add: onResponse_def Let_def)
    moreover have "statusEmitted (onResponse fs h e s)"
      using Inr False em by (simp add: onResponse_def Let_def statusEmitted_def)
    ultimately show ?thesis by blast
  next
    case (Inl err)
    have "sameDelivered ?s1 (endCall \<lparr>code = Status_UNKNOWN, details = errorMessage err, metadata = []\<rparr>
                      (destroyHttp2Stream ?s1))"
      using em em_cancel [of ?s1 Status_UNKNOWN "errorMessage err"]
      by (simp add: cancelWithStatus_def)
    then show ?thesis using Inl False
      by (simp add: onResponse_def Let_def sameDelivered_def)
  qed
qed

lemma em_callStep:
  "statusEmitted s \<Longrightarrow>
     statusEmitted (callStep fs e s)
     \<and> (\<exists>mds. delivered (callStep fs e s) = delivered s @ map OnReceiveMetadata mds)
     \<and> ((\<forall>h. e \<noteq> EvResponse h False) \<longrightarrow> delivered (callStep fs e s) = delivered s)"
proof (cases e)
  case (EvResponse h b)
  assume em: "statusEmitted s"
  show ?thesis
  proof (cases "http2Stream s")
    case True
    then show ?thesis
      using em EvResponse em_onResponse [of s fs h b] em_onResponse_end [of s fs h]
      by (cases b) (simp_all add: sameDelivered_def)
  next
    case False
    then show ?thesis using em EvResponse by simp
  qed
next
  case EvAttach
  assume "statusEmitted s" then show ?thesis using EvAttach em_attach [of s] by (simp add: sameDelivered_def)
next
  case (EvTrailers h)
  assume "statusEmitted s" then show ?thesis
    using EvTrailers em_handleTrailers [of s fs h] by (simp add: sameDelivered_def)
next
  case (EvData ms)
  assume "statusEmitted s" then show ?thesis using EvData em_onData [of s ms] by (simp add: sameDelivered_def)
next
  case EvEnd
  assume "statusEmitted s" then show ?thesis
    using EvEnd em_tryPush [of s None] by (simp add: sameDelivered_def onEnd_def)
next
  case (EvClose rst)
  assume "statusEmitted s" then show ?thesis
    using EvClose em_endCall [of "s\<lparr>streamDestroyed := True\<rparr>" "rstStatus rst"]
    by (simp add: sameDelivered_def onClose_def)
next
  case (EvReadFiltered m)
  assume "statusEmitted s" then show ?thesis
    using EvReadFiltered em_handleFilteredRead [of s m] by (simp add: sameDelivered_def)
next
  case (EvReadFilterError msg)
  assume "statusEmitted s" then show ?thesis
    using EvReadFilterError em_cancel [of s Status_INTERNAL msg]
    by (simp add: sameDelivered_def handleFilterError_def)
next
  case (EvWriteFiltered m)
  assume "statusEmitted s" then show ?thesis
    using EvWriteFiltered by (simp add: onWriteFiltered_def)
next
  case (EvWriteFilterError msg)
  assume "statusEmitted s" then show ?thesis
    using EvWriteFilterError em_cancel [of s Status_INTERNAL msg]
    by (simp add: sameDelivered_def handleFilterError_def)
next
  case EvStartRead
  assume "statusEmitted s" then show ?thesis using EvStartRead em_startRead [of s] by (simp add: sameDelivered_def)
next
  case EvHalfClose
  assume "statusEmitted s" then show ?thesis using EvHalfClose by (simp add: halfClose_def Let_def)
next
  case (EvCancelWithStatus st dt)
  assume "statusEmitted s" then show ?thesis
    using EvCancelWithStatus em_cancel [of s st dt] by (simp add: sameDelivered_def)
next
  case EvDisconnect
  assume "statusEmitted s" then show ?thesis
    using EvDisconnect
      em_endCall [of s "\<lparr>code = Status_UNAVAILABLE, details = ''Connection dropped'', metadata = []\<rparr>"]
    by (simp add: sameDelivered_def disconnectListener_def)
next
  case EvTick
  assume "statusEmitted s" then show ?thesis using EvTick em_onTick [of s] by (simp add: sameDelivered_def)
qed

lemma em_callRun:
  "statusEmitted s \<Longrightarrow>
     statusEmitted (callRun fs evs s)
     \<and> (\<exists>mds. delivered (callRun fs evs s) = delivered s @ map OnReceiveMetadata mds)"
proof (induction evs arbitrary: s)
  case Nil
  then show ?case by (simp add: callRun_def)
next
  case (Cons e evs)
  let ?t = "callStep fs e s"
  have a: "statusEmitted ?t" using em_callStep [OF Cons.prems, of fs e] by simp
  obtain m1 where m1: "delivered ?t = delivered s @ map OnReceiveMetadata m1"
    using em_callStep [OF Cons.prems, of fs e] by blast
  obtain m2 where m2: "delivered (callRun fs evs ?t) = delivered ?t @ map OnReceiveMetadata m2"
    using Cons.IH [OF a] by blast
  have "delivered (callRun fs (e # evs) s) = delivered s @ map OnReceiveMetadata (m1 @ m2)"
    using m1 m2 by (simp add: callRun_def)
  moreover have "statusEmitted (callRun fs (e # evs) s)"
    using Cons.IH [OF a] by (simp add: callRun_def)
  ultimately show ?case by blast
qed

text \<open>
  C3 (as amended). In every state that a run of a client call reaches, the listener has
  received at most one \<open>onReceiveStatus\<close> and no \<open>onReceiveMessage\<close> after it. It has
  received none before the call has ended, and exactly one once the call has ended and the
  deferred callback has run, whatever events come in between. A call ends by an event that
  reaches \<open>endCall\<close> with a status other than OK, and a call whose final status is set
  (the status OK is held until then) ends by an event that closes its reads. Once the
  status has been received, everything a further run of events hands to the listener is
  metadata of initial response headers: no status and no message follows, and no event
  other than initial response headers delivers anything.
\<close>

theorem final_status_latches_once:
  "s = callRun fs evs newHttp2CallStream \<Longrightarrow>
     statusCount (delivered s) \<le> 1
     \<and> noMessageAfterStatus (delivered s)
     \<and> (\<not> callEnded s \<longrightarrow> statusCount (delivered s) = 0)
     \<and> (callEnded s \<longrightarrow> statusCount (delivered (callRun fs (evs' @ [EvTick]) s)) = 1)
     \<and> (endsCall e' s \<or> (finalStatus s \<noteq> None \<and> closesReads e' s) \<longrightarrow>
          callEnded (callStep fs e' s)
          \<and> statusCount (delivered (callRun fs (e' # evs' @ [EvTick]) s)) = 1)
     \<and> (0 < statusCount (delivered s) \<longrightarrow>
          (\<exists>mds. delivered (callRun fs evs' s) = delivered s @ map OnReceiveMetadata mds)
          \<and> ((\<forall>h. e \<noteq> EvResponse h False) \<longrightarrow> delivered (callStep fs e s) = delivered s))"
proof -
  assume s: "s = callRun fs evs newHttp2CallStream"
  have i: "callInv s"
    unfolding s by (rule inv_callRun [OF inv_new])
  have c: "statusCount (delivered s) \<le> 1"
    using i by (auto simp: callInv_def split: if_splits)
  have n: "noMessageAfterStatus (delivered s)"
    using i by (simp add: callInv_def)
  have z: "statusCount (delivered s) = 0" if "\<not> callEnded s"
    using i that by (rule not_ended_no_status)
  have o: "statusCount (delivered (callRun fs (evs' @ [EvTick]) s)) = 1" if "callEnded s"
    using i that by (rule ended_exactly_once)
  have x: "callEnded (callStep fs e' s)
           \<and> statusCount (delivered (callRun fs (e' # evs' @ [EvTick]) s)) = 1"
    if "endsCall e' s \<or> (finalStatus s \<noteq> None \<and> closesReads e' s)"
  proof -
    have e: "callEnded (callStep fs e' s)"
      using that i by (auto intro: endsCall_callEnded closesReads_callEnded)
    have "statusCount (delivered (callRun fs (evs' @ [EvTick]) (callStep fs e' s))) = 1"
      using inv_callStep [OF i] e by (rule ended_exactly_once)
    then show ?thesis using e by (simp add: callRun_def)
  qed
  have d: "(\<exists>mds. delivered (callRun fs evs' s) = delivered s @ map OnReceiveMetadata mds)
           \<and> ((\<forall>h. e \<noteq> EvResponse h False) \<longrightarrow> delivered (callStep fs e s) = delivered s)"
    if "0 < statusCount (delivered s)"
  proof -
    have em: "statusEmitted s" using i that by (rule statusEmitted_iff)
    show ?thesis using em_callRun [OF em, of fs evs'] em_callStep [OF em, of fs e] by simp
  qed
  show ?thesis using c n z o x d by blast
qed

lemmas client_eval_defs =
  callRun_def newHttp2CallStream_def attachHttp2Stream_def startRead_def onResponse_def
  onData_def tryPush_def filterReceivedMessage_def handleFilteredRead_def pushMessage_def
  pushNull_def push_def handleTrailers_def endCall_def outputStatus_def onTick_def onClose_def
  onEnd_def rstStatus_def mapHttpStatus_def identityFilterStack_def cancelWithStatus_def
  destroyHttp2Stream_def disconnectListener_def

lemma fromHttp2Headers_status_only [simp]:
  "fromHttp2Headers [('':status'', v)] = []"
  by (simp add: fromHttp2Headers_def Object_keys_def isArrayIndex_def isDigit_def
      fromHeaderEntry_def)

lemma fromHttp2Headers_Nil [simp]: "fromHttp2Headers [] = []"
  by (simp add: fromHttp2Headers_def Object_keys_def)

lemma exampleRun_state:
  "delivered (callRun exampleFilterStack exampleRun newHttp2CallStream)
     = [OnReceiveMetadata [], OnReceiveMessage [1, 2]]"
  "finalStatus (callRun exampleFilterStack exampleRun newHttp2CallStream)
     = Some \<lparr>code = Status_OK, details = [], metadata = [(''grpc-status'', [Str ''0''])]\<rparr>"
  "readsClosed (callRun exampleFilterStack exampleRun newHttp2CallStream) = False"
  "http2Stream (callRun exampleFilterStack exampleRun newHttp2CallStream) = True"
  "isReadFilterPending (callRun exampleFilterStack exampleRun newHttp2CallStream) = False"
  by (simp_all add: exampleRun_def exampleFilterStack_def client_eval_defs metadata_eval_defs
      Let_def Status_defs)

lemma exampleRun_ended:
  "delivered (callRun exampleFilterStack (exampleRun @ [EvEnd, EvTick]) newHttp2CallStream)
     = [OnReceiveMetadata [], OnReceiveMessage [1, 2],
        OnReceiveStatus
          (Some \<lparr>code = Status_OK, details = [], metadata = [(''grpc-status'', [Str ''0''])]\<rparr>)]"
  by (simp add: exampleRun_def exampleFilterStack_def client_eval_defs metadata_eval_defs
      Let_def Status_defs)

lemma exampleRun_after:
  "delivered (callRun exampleFilterStack
       [EvData [[9]], EvClose 8, EvResponse [('':status'', HNum 200)] False, EvTick]
       (callRun exampleFilterStack (exampleRun @ [EvEnd, EvTick]) newHttp2CallStream))
     = delivered (callRun exampleFilterStack (exampleRun @ [EvEnd, EvTick]) newHttp2CallStream)
       @ [OnReceiveMetadata []]"
  by (simp add: exampleRun_def exampleFilterStack_def client_eval_defs metadata_eval_defs
      Let_def Status_defs)

theorem final_status_latches_once_witness:
  "\<not> callEnded (callRun exampleFilterStack exampleRun newHttp2CallStream)
   \<and> statusCount (delivered (callRun exampleFilterStack exampleRun newHttp2CallStream)) = 0
   \<and> finalStatus (callRun exampleFilterStack exampleRun newHttp2CallStream) \<noteq> None
   \<and> closesReads EvEnd (callRun exampleFilterStack exampleRun newHttp2CallStream)
   \<and> callEnded (callStep exampleFilterStack EvEnd
        (callRun exampleFilterStack exampleRun newHttp2CallStream))
   \<and> statusCount (delivered (callRun exampleFilterStack (EvEnd # [EvStartRead] @ [EvTick])
        (callRun exampleFilterStack exampleRun newHttp2CallStream))) = 1
   \<and> 0 < statusCount
        (delivered (callRun exampleFilterStack (exampleRun @ [EvEnd, EvTick]) newHttp2CallStream))
   \<and> noMessageAfterStatus
        (delivered (callRun exampleFilterStack (exampleRun @ [EvEnd, EvTick]) newHttp2CallStream))
   \<and> callEnded (callRun exampleFilterStack (exampleRun @ [EvEnd, EvTick]) newHttp2CallStream)
   \<and> statusCount (delivered (callRun exampleFilterStack ([EvClose 8] @ [EvTick])
        (callRun exampleFilterStack (exampleRun @ [EvEnd, EvTick]) newHttp2CallStream))) = 1
   \<and> delivered (callStep exampleFilterStack (EvData [[9]])
        (callRun exampleFilterStack (exampleRun @ [EvEnd, EvTick]) newHttp2CallStream))
      = delivered (callRun exampleFilterStack (exampleRun @ [EvEnd, EvTick]) newHttp2CallStream)
   \<and> delivered (callRun exampleFilterStack
        [EvData [[9]], EvClose 8, EvResponse [('':status'', HNum 200)] False, EvTick]
        (callRun exampleFilterStack (exampleRun @ [EvEnd, EvTick]) newHttp2CallStream))
      = delivered (callRun exampleFilterStack (exampleRun @ [EvEnd, EvTick]) newHttp2CallStream)
        @ [OnReceiveMetadata []]
   \<and> endsCall (EvCancelWithStatus 1 ''stop'') newHttp2CallStream
   \<and> statusCount (delivered (callRun exampleFilterStack
        (EvCancelWithStatus 1 ''stop'' # [EvAttach] @ [EvTick]) newHttp2CallStream)) = 1"
proof -
  let ?a = "callRun exampleFilterStack exampleRun newHttp2CallStream"
  let ?b = "callRun exampleFilterStack (exampleRun @ [EvEnd, EvTick]) newHttp2CallStream"
  have na: "\<not> callEnded ?a" and fa: "finalStatus ?a \<noteq> None" and ca: "closesReads EvEnd ?a"
    by (simp_all add: callEnded_def exampleRun_state)
  have pb: "0 < statusCount (delivered ?b)"
    by (simp add: exampleRun_ended statusCount_def)
  have cb: "callEnded ?b"
    by (simp add: callEnded_def exampleRun_def exampleFilterStack_def client_eval_defs
        metadata_eval_defs Let_def Status_defs)
  have ec: "endsCall (EvCancelWithStatus 1 ''stop'') newHttp2CallStream"
    by (simp add: Status_defs)
  note ta = final_status_latches_once
    [where s = ?a and fs = exampleFilterStack and evs = exampleRun and evs' = "[EvStartRead]"
       and e' = EvEnd and e = EvTick, OF refl]
  note tb = final_status_latches_once
    [where s = ?b and fs = exampleFilterStack and evs = "exampleRun @ [EvEnd, EvTick]"
       and evs' = "[EvClose 8]" and e' = EvTick and e = "EvData [[9]]", OF refl]
  note tc = final_status_latches_once
    [where s = newHttp2CallStream and fs = exampleFilterStack and evs = "[]"
       and evs' = "[EvAttach]" and e' = "EvCancelWithStatus 1 ''stop''" and e = EvTick]
  have c0: "callRun exampleFilterStack [] newHttp2CallStream = newHttp2CallStream"
    by (simp add: callRun_def)
  have 1: "statusCount (delivered ?a) = 0" using ta na by blast
  have 2: "callEnded (callStep exampleFilterStack EvEnd ?a)
           \<and> statusCount (delivered (callRun exampleFilterStack (EvEnd # [EvStartRead] @ [EvTick]) ?a)) = 1"
    using ta fa ca by blast
  have 3: "noMessageAfterStatus (delivered ?b)" using tb by blast
  have 4: "delivered (callStep exampleFilterStack (EvData [[9]]) ?b) = delivered ?b"
    using tb pb by blast
  have 5: "statusCount (delivered (callRun exampleFilterStack
             (EvCancelWithStatus 1 ''stop'' # [EvAttach] @ [EvTick]) newHttp2CallStream)) = 1"
    using tc [OF c0 [symmetric]] ec by blast
  have 6: "statusCount (delivered (callRun exampleFilterStack ([EvClose 8] @ [EvTick]) ?b)) = 1"
    using tb cb by blast
  show ?thesis
    using na fa ca pb cb ec 1 2 3 4 5 6 exampleRun_after by blast
qed

text \<open>
  The claim as stated fails for initial response headers that arrive after the status:
  the \<open>response\<close> listener does not look at \<open>finalStatus\<close>. A call whose connection
  drops receives its status, and response headers that arrive afterwards are still handed
  to the listener as metadata.
\<close>

theorem metadata_after_status_counterexample:
  "delivered (callRun identityFilterStack
       (droppedRun @ [EvResponse [('':status'', HNum 200)] False]) newHttp2CallStream)
     = [OnReceiveStatus
          (Some \<lparr>code = Status_UNAVAILABLE, details = ''Connection dropped'', metadata = []\<rparr>),
        OnReceiveMetadata []]"
  by (simp add: droppedRun_def client_eval_defs Let_def Status_defs)

text \<open>
  C8 (as amended). When the stream of a client call closes and the call has no final
  status yet (neither trailers nor a cancellation, a disconnect or a filter failure has
  set one), the RST_STREAM code decides the status: REFUSED_STREAM gives UNAVAILABLE with
  "Stream refused by server", CANCEL gives CANCELLED with "Call cancelled",
  ENHANCE_YOUR_CALM gives RESOURCE_EXHAUSTED, INADEQUATE_SECURITY gives PERMISSION_DENIED,
  and every other code gives INTERNAL. That status becomes the final status, and the
  listener receives it when the deferred callback runs.
\<close>

theorem close_rst_status_mapping:
  "s = callRun fs evs newHttp2CallStream \<Longrightarrow> http2Stream s \<Longrightarrow> finalStatus s = None \<Longrightarrow>
     finalStatus (callStep fs (EvClose rst) s) = Some (rstStatus rst)
     \<and> delivered (callRun fs [EvClose rst, EvTick] s)
         = delivered s @ [OnReceiveStatus (Some (rstStatus rst))]
     \<and> rstStatus NGHTTP2_REFUSED_STREAM
         = \<lparr>code = Status_UNAVAILABLE, details = ''Stream refused by server'', metadata = []\<rparr>
     \<and> rstStatus NGHTTP2_CANCEL
         = \<lparr>code = Status_CANCELLED, details = ''Call cancelled'', metadata = []\<rparr>
     \<and> code (rstStatus NGHTTP2_ENHANCE_YOUR_CALM) = Status_RESOURCE_EXHAUSTED
     \<and> code (rstStatus NGHTTP2_INADEQUATE_SECURITY) = Status_PERMISSION_DENIED
     \<and> (rst \<noteq> NGHTTP2_REFUSED_STREAM \<and> rst \<noteq> NGHTTP2_CANCEL
          \<and> rst \<noteq> NGHTTP2_ENHANCE_YOUR_CALM \<and> rst \<noteq> NGHTTP2_INADEQUATE_SECURITY
          \<longrightarrow> code (rstStatus rst) = Status_INTERNAL)"
proof -
  assume s: "s = callRun fs evs newHttp2CallStream" and a: "http2Stream s"
    and f: "finalStatus s = None"
  have i: "callInv s"
    unfolding s by (rule inv_callRun [OF inv_new])
  have o: "\<not> statusOutput s" "pendingStatusTicks s = 0"
    using i f by (auto simp: callInv_def callEnded_def split: if_splits)
  have 1: "finalStatus (callStep fs (EvClose rst) s) = Some (rstStatus rst)"
    using a f o by (simp add: onClose_def endCall_def Let_def rstStatus_not_ok)
  have 2: "delivered (callRun fs [EvClose rst, EvTick] s)
             = delivered s @ [OnReceiveStatus (Some (rstStatus rst))]"
    using a f o
    by (simp add: callRun_def onClose_def endCall_def Let_def rstStatus_not_ok outputStatus_def
        onTick_def)
  show ?thesis
    using 1 2 by (simp add: rstStatus_def NGHTTP2_defs)
qed

theorem close_rst_status_mapping_witness:
  "http2Stream (callRun identityFilterStack [EvAttach] newHttp2CallStream)
   \<and> finalStatus (callRun identityFilterStack [EvAttach] newHttp2CallStream) = None
   \<and> delivered (callRun identityFilterStack [EvClose 8, EvTick]
        (callRun identityFilterStack [EvAttach] newHttp2CallStream))
      = [OnReceiveStatus (Some \<lparr>code = 1, details = ''Call cancelled'', metadata = []\<rparr>)]"
proof -
  have a: "http2Stream (callRun identityFilterStack [EvAttach] newHttp2CallStream)"
    and f: "finalStatus (callRun identityFilterStack [EvAttach] newHttp2CallStream) = None"
    and d: "delivered (callRun identityFilterStack [EvAttach] newHttp2CallStream) = []"
    by (simp_all add: client_eval_defs Let_def)
  show ?thesis
    using close_rst_status_mapping [OF refl a f, of 8] a f d
    by (simp add: rstStatus_def NGHTTP2_defs Status_defs)
qed

text \<open>
  The claim as stated fails when something other than trailers has ended the call before
  the stream closes: \<open>endCall\<close> keeps a final status other than OK. A call cancelled at
  its deadline closes its stream with CANCEL, no trailers arrive, and the listener
  receives DEADLINE_EXCEEDED, not CANCELLED.
\<close>

theorem close_after_cancel_counterexample:
  "delivered (callRun identityFilterStack
       [EvAttach, EvCancelWithStatus Status_DEADLINE_EXCEEDED ''Deadline exceeded'',
        EvClose NGHTTP2_CANCEL, EvTick] newHttp2CallStream)
     = [OnReceiveStatus
          (Some \<lparr>code = Status_DEADLINE_EXCEEDED, details = ''Deadline exceeded'',
                 metadata = []\<rparr>)]
   \<and> code (rstStatus NGHTTP2_CANCEL) = Status_CANCELLED
   \<and> Status_CANCELLED \<noteq> Status_DEADLINE_EXCEEDED"
  by (simp add: client_eval_defs Let_def Status_defs NGHTTP2_defs)

section \<open>Properties of the resolving load balancer\<close>










section \<open>Properties of the service-config validator\<close>

lemma sameName_eq [simp]: "sameName n m = (n = m)"
  by (cases n, cases m) (auto simp: sameName_def)

lemma list_ex_sameName [simp]: "list_ex (sameName n) xs = (n \<in> set xs)"
  by (induction xs) auto

lemma checkUniqueNames_distinct:
  "distinct seen \<Longrightarrow> (checkUniqueNames seen ns = None) = distinct (seen @ ns)"
proof (induction ns arbitrary: seen)
  case Nil
  then show ?case by simp
next
  case (Cons n ns)
  show ?case
  proof (cases "n \<in> set seen")
    case True
    then show ?thesis by simp
  next
    case False
    then have "distinct (seen @ [n])" using Cons.prems by simp
    from Cons.IH [OF this] show ?thesis using False by auto
  qed
qed

text \<open>
  C6. Take a service config object whose fields pass the validation of the first three
  blocks, with result \<open>result\<close>. \<open>validateServiceConfig\<close> throws exactly when the list of
  all names of all method configs of \<open>result\<close> has two equal entries, that is two entries
  with the same service and the same method, an absent method being equal to an absent one
  only; otherwise it returns \<open>result\<close>.
\<close>

theorem validateServiceConfig_duplicate_names:
  "validateServiceConfigFields validateConfig obj = Inr result \<Longrightarrow>
     (isError (validateServiceConfig validateConfig obj)
        = (\<not> distinct (concat (map name (methodConfig result)))))
     \<and> (distinct (concat (map name (methodConfig result)))
          \<longrightarrow> validateServiceConfig validateConfig obj = Inr result)"
  using checkUniqueNames_distinct [of "[]" "concat (map name (methodConfig result))"]
  by (auto simp: validateServiceConfig_def isError_def split: option.splits)

lemmas json_eval_defs =
  validateServiceConfigFields_def validateMethodConfig_def validateName_def optionalField_def
  hasKey_def getProp_def asBoolean_def asNumber_def asString_def asTimeout_def
  TIMEOUT_REGEX_test_def isDigit_def

lemma duplicateConfig_fields:
  "validateServiceConfigFields Inr duplicateConfig
     = Inr \<lparr>loadBalancingPolicy = None, loadBalancingConfig = ([] :: json list),
            methodConfig =
              [\<lparr>name = [\<lparr>service = ''echo.Echoer'', methodName = None\<rparr>],
                waitForReady = Some True, timeout = None, maxRequestBytes = None,
                maxResponseBytes = None\<rparr>,
               \<lparr>name = [\<lparr>service = ''echo.Echoer'', methodName = Some ''Say''\<rparr>,
                        \<lparr>service = ''echo.Echoer'', methodName = None\<rparr>],
                waitForReady = None, timeout = Some ''1.5s'', maxRequestBytes = None,
                maxResponseBytes = None\<rparr>]\<rparr>"
  by (simp add: duplicateConfig_def json_eval_defs Let_def)

lemma uniqueConfig_fields:
  "validateServiceConfigFields Inr uniqueConfig
     = Inr \<lparr>loadBalancingPolicy = None, loadBalancingConfig = ([] :: json list),
            methodConfig =
              [\<lparr>name = [\<lparr>service = ''echo.Echoer'', methodName = None\<rparr>,
                        \<lparr>service = ''echo.Echoer'', methodName = Some ''Say''\<rparr>],
                waitForReady = None, timeout = None, maxRequestBytes = None,
                maxResponseBytes = None\<rparr>]\<rparr>"
  by (simp add: uniqueConfig_def json_eval_defs Let_def)

theorem validateServiceConfig_duplicate_names_witness:
  "isError (validateServiceConfig Inr duplicateConfig :: jsError + json ServiceConfig)
   \<and> \<not> isError (validateServiceConfig Inr uniqueConfig :: jsError + json ServiceConfig)"
  using validateServiceConfig_duplicate_names [OF duplicateConfig_fields]
    validateServiceConfig_duplicate_names [OF uniqueConfig_fields]
  by (simp add: isError_def)

lemma anyEquals_iff [simp]: "anyEquals x xs = (x \<in> set xs)"
proof -
  have "fold (\<lambda>y matched. if y = x then True else matched) xs acc = (acc \<or> x \<in> set xs)" for acc
    by (induction xs arbitrary: acc) auto
  then show ?thesis by (simp add: anyEquals_def)
qed




lemma set_Object_keys [simp]: "set (Object_keys kvs) = fst ` set kvs"
  by (auto simp: Object_keys_def)









end
